theory Spec2Isabelle
  imports Complex_Main "HOL-Library.AList"
begin

section \<open>Client channel: the receive path of \<open>ClientChannel.on\<close>\<close>

text \<open>
  Source: \<^verbatim>\<open>src/packages/client/src/geckos/channel.ts\<close>, lines 163-197.
  The bridge hands the handler a JavaScript value of any shape (\<^verbatim>\<open>data: any\<close>).
  Numbers are integers here: the handler only compares one with the literal 1.
\<close>

datatype jsval =
    JUndefined
  | JNull
  | JBool bool
  | JNum int
  | JStr string
  | JObj "(string \<times> jsval) list"

text \<open>JavaScript truthiness, as used by \<^verbatim>\<open>data && ...\<close> and \<^verbatim>\<open>if (isReliableMessage)\<close>.\<close>

fun truthy :: "jsval \<Rightarrow> bool" where
  "truthy JUndefined = False"
| "truthy JNull = False"
| "truthy (JBool b) = b"
| "truthy (JNum n) = (n \<noteq> 0)"
| "truthy (JStr s) = (s \<noteq> [])"
| "truthy (JObj fs) = True"

text \<open>
  Property access \<^verbatim>\<open>data.K\<close> for the keys the handler reads (MESSAGE, RELIABLE, ID):
  an object yields the stored value or \<^verbatim>\<open>undefined\<close>; a primitive has none of them.
  It is only evaluated on a truthy value (\<^verbatim>\<open>&&\<close> short-circuits on null and undefined).
\<close>

fun get_prop :: "jsval \<Rightarrow> string \<Rightarrow> jsval" where
  "get_prop (JObj fs) k = (case map_of fs k of Some v \<Rightarrow> v | None \<Rightarrow> JUndefined)"
| "get_prop v k = JUndefined"

text \<open>
  Strict equality \<^verbatim>\<open>===\<close>. Primitives compare by value. Objects compare by reference;
  the two sides the handler compares come from separately parsed messages (or from a
  literal), so two objects are never the same reference.
\<close>

fun strict_eq :: "jsval \<Rightarrow> jsval \<Rightarrow> bool" where
  "strict_eq (JObj a) v = False"
| "strict_eq v (JObj b) = False"
| "strict_eq a b = (a = b)"

text \<open>An entry of \<^verbatim>\<open>receivedReliableMessages\<close>: \<^verbatim>\<open>{ id, timestamp, expire }\<close>, times in ms.\<close>

record reliable_record =
  msg_id :: jsval
  timestamp :: int
  expire :: int

type_synonym ledger = "reliable_record list"

text \<open>
  The handler reads the wall clock three times: in \<^verbatim>\<open>deleteExpiredReliableMessages\<close>
  (\<^verbatim>\<open>currentTime\<close>), for \<^verbatim>\<open>timestamp\<close>, and for \<^verbatim>\<open>expire\<close>. The three readings of one
  receipt are an input of the model.
\<close>

record clock_reads =
  t_prune :: int
  t_stamp :: int
  t_expire :: int

definition expireTime :: int where
  "expireTime = 15000"

text \<open>\<^verbatim>\<open>data && data.RELIABLE === 1 && data.ID !== 'undefined'\<close>, read as a condition.\<close>

definition isReliableMessage :: "jsval \<Rightarrow> bool" where
  "isReliableMessage data =
     (truthy data
      \<and> strict_eq (get_prop data ''RELIABLE'') (JNum 1)
      \<and> \<not> strict_eq (get_prop data ''ID'') (JStr ''undefined''))"

text \<open>\<^verbatim>\<open>object.splice(index, 1)\<close>: removes the element at \<open>index\<close>, in place.\<close>

definition splice1 :: "nat \<Rightarrow> 'a list \<Rightarrow> 'a list" where
  "splice1 index object = take index object @ drop (Suc index) object"

text \<open>
  \<^verbatim>\<open>receivedReliableMessages.forEach((msg, index, object) => { if (msg.expire <= currentTime)
  object.splice(index, 1) })\<close>.
  \<^verbatim>\<open>Array.prototype.forEach\<close> fixes the number of rounds \<open>len\<close> at the start, visits the
  indices \<open>0, 1, ..., len - 1\<close> in turn and skips an index that the array no longer has.
  The callback removes from the very array that is being visited, so the elements
  after a removed one move down by one while the index still advances.
\<close>

function forEach_splice :: "int \<Rightarrow> nat \<Rightarrow> nat \<Rightarrow> ledger \<Rightarrow> ledger" where
  "forEach_splice currentTime index len object =
     (if index < len then
        (if index < length object then
           (if expire (object ! index) \<le> currentTime
            then forEach_splice currentTime (Suc index) len (splice1 index object)
            else forEach_splice currentTime (Suc index) len object)
         else forEach_splice currentTime (Suc index) len object)
      else object)"
  by pat_completeness auto
termination
  by (relation "measure (\<lambda>(currentTime, index, len, object). len - index)") auto

declare forEach_splice.simps [simp del]

definition deleteExpiredReliableMessages :: "int \<Rightarrow> ledger \<Rightarrow> ledger" where
  "deleteExpiredReliableMessages currentTime ledger =
     forEach_splice currentTime 0 (length ledger) ledger"

text \<open>
  The handler registered by \<^verbatim>\<open>on(eventName, callback)\<close>. The result is the argument the
  callback was invoked with (\<open>None\<close>: the callback was not invoked) and the ledger
  afterwards.
\<close>

definition on_message :: "jsval \<Rightarrow> clock_reads \<Rightarrow> ledger \<Rightarrow> jsval option \<times> ledger" where
  "on_message data clk ledger =
     (if isReliableMessage data then
        (let pruned = deleteExpiredReliableMessages (t_prune clk) ledger in
         if length (filter (\<lambda>obj. strict_eq (msg_id obj) (get_prop data ''ID'')) pruned) = 0
         then (Some (get_prop data ''MESSAGE''),
               pruned @ [\<lparr> msg_id = get_prop data ''ID'',
                           timestamp = t_stamp clk,
                           expire = t_expire clk + expireTime \<rparr>])
         else (None, pruned))
      else (Some data, ledger))"

text \<open>A run of the handler over the messages received, in order of receipt.\<close>

fun receive_all :: "(jsval \<times> clock_reads) list \<Rightarrow> ledger \<Rightarrow> jsval option list \<times> ledger" where
  "receive_all [] ledger = ([], ledger)"
| "receive_all ((data, clk) # rest) ledger =
     (let (out, ledger') = on_message data clk ledger;
          (outs, ledger'') = receive_all rest ledger'
      in (out # outs, ledger''))"

text \<open>The wire envelope of a reliable send: \<^verbatim>\<open>{ MESSAGE: data, RELIABLE: 1, ID: id }\<close>.\<close>

definition envelope :: "jsval \<Rightarrow> string \<Rightarrow> jsval" where
  "envelope payload i = JObj [(''MESSAGE'', payload), (''RELIABLE'', JNum 1), (''ID'', JStr i)]"

text \<open>One clock value used for all three readings of a receipt.\<close>

definition at_time :: "int \<Rightarrow> clock_reads" where
  "at_time t = \<lparr> t_prune = t, t_stamp = t, t_expire = t \<rparr>"

text \<open>
  Vocabulary for the properties below. A message that carries the RELIABLE flag and the
  string \<open>i\<close> as its ID:
\<close>

definition reliable_with_id :: "jsval \<Rightarrow> string \<Rightarrow> bool" where
  "reliable_with_id data i =
     (get_prop data ''RELIABLE'' = JNum 1 \<and> get_prop data ''ID'' = JStr i)"

text \<open>
  What happened to the messages of a run that carry the RELIABLE flag and the ID \<open>i\<close>,
  in order of receipt: \<open>Some v\<close> when the callback was invoked with \<open>v\<close>, \<open>None\<close> when
  the message was dropped.
\<close>

definition outcomes_for ::
  "string \<Rightarrow> (jsval \<times> clock_reads) list \<Rightarrow> ledger \<Rightarrow> jsval option list" where
  "outcomes_for i trace ledger =
     map snd (filter (\<lambda>(e, out). reliable_with_id (fst e) i)
                     (zip trace (fst (receive_all trace ledger))))"

section \<open>Client connections manager: the candidate poller\<close>

text \<open>
  Source: \<^verbatim>\<open>src/unnamed/part_000\<close>, lines 140-151 (\<^verbatim>\<open>connect\<close>) and 248-259
  (\<^verbatim>\<open>reconnect\<close>), the same text in both places:
  \<^verbatim>\<open>parseInt((initial * factor ** index).toString()) + parseInt((Math.random() * jitter).toString())\<close>.
  JavaScript numbers are modelled as exact rationals; the rounding of IEEE doubles is not
  part of the model.

  \<^verbatim>\<open>parseInt(x.toString())\<close> reads the digits before the first character that is not a
  digit. \<^verbatim>\<open>toString\<close> prints a number in \<open>[10^-6, 10^21)\<close> in decimal notation, so the
  digits read are its integer part; outside that range it prints exponent notation
  (\<^verbatim>\<open>5e-7\<close>, \<^verbatim>\<open>1.5e+21\<close>), and the digits read are the single leading digit.

  The leading decimal digit of a positive number:
\<close>

function lead_digit :: "rat \<Rightarrow> int" where
  "lead_digit x =
     (if x \<le> 0 then 0
      else if x < 1 then lead_digit (10 * x)
      else if 10 \<le> x then lead_digit (x / 10)
      else \<lfloor>x\<rfloor>)"
  by pat_completeness auto
termination
proof (relation "measure (\<lambda>x. if x < 1 then Suc (nat \<lfloor>1 / x\<rfloor>)
                              else if 10 \<le> x then Suc (nat \<lfloor>x\<rfloor>) else 0)")
  have tenth: "\<lfloor>y / 10\<rfloor> < \<lfloor>y\<rfloor>" if "1 \<le> y" for y :: rat
  proof -
    have n: "1 \<le> \<lfloor>y\<rfloor>" using that by linarith
    have "y < of_int \<lfloor>y\<rfloor> + 1" by linarith
    moreover have "(of_int \<lfloor>y\<rfloor> + 1 :: rat) \<le> 10 * of_int \<lfloor>y\<rfloor>"
      using n by linarith
    ultimately have "y / 10 < of_int \<lfloor>y\<rfloor>" by linarith
    then show ?thesis by (simp add: floor_less_iff)
  qed
  {
    fix x :: rat
    assume a: "\<not> x \<le> 0" "x < 1"
    have y: "1 \<le> 1 / x" using a by simp
    have e: "1 / (10 * x) = (1 / x) / 10" by simp
    have "\<lfloor>1 / (10 * x)\<rfloor> < \<lfloor>1 / x\<rfloor>"
      unfolding e using y by (rule tenth)
    moreover have "1 \<le> \<lfloor>1 / x\<rfloor>" using y by linarith
    ultimately have "nat \<lfloor>1 / (10 * x)\<rfloor> < nat \<lfloor>1 / x\<rfloor>" by linarith
    then show "(10 * x, x) \<in> measure (\<lambda>x. if x < 1 then Suc (nat \<lfloor>1 / x\<rfloor>)
                              else if 10 \<le> x then Suc (nat \<lfloor>x\<rfloor>) else 0)"
      using a by auto
  next
    fix x :: rat
    assume a: "\<not> x \<le> 0" "\<not> x < 1" "10 \<le> x"
    have "\<lfloor>x / 10\<rfloor> < \<lfloor>x\<rfloor>" using a by (intro tenth) simp
    moreover have "10 \<le> \<lfloor>x\<rfloor>" using a by linarith
    ultimately have "nat \<lfloor>x / 10\<rfloor> < nat \<lfloor>x\<rfloor>" by linarith
    then show "(x / 10, x) \<in> measure (\<lambda>x. if x < 1 then Suc (nat \<lfloor>1 / x\<rfloor>)
                              else if 10 \<le> x then Suc (nat \<lfloor>x\<rfloor>) else 0)"
      using a by auto
  }
qed simp

declare lead_digit.simps [simp del]

text \<open>\<^verbatim>\<open>parseInt(x.toString())\<close>; a leading minus sign is read as the sign.\<close>

definition parseInt_toString :: "rat \<Rightarrow> int" where
  "parseInt_toString x =
     (let m = \<bar>x\<bar>;
          digits = (if m = 0 then 0
                    else if m < 1 / 10 ^ 6 \<or> 10 ^ 21 \<le> m then lead_digit m
                    else \<lfloor>m\<rfloor>)
      in if x < 0 then - digits else digits)"

text \<open>
  \<^verbatim>\<open>showBackOffIntervals(attempts, initial, factor, jitter)\<close>. \<open>random index\<close> is the
  value \<^verbatim>\<open>Math.random()\<close> returns in the callback for \<open>index\<close>, a number in \<open>[0, 1)\<close>.
\<close>

definition showBackOffIntervals :: "nat \<Rightarrow> rat \<Rightarrow> rat \<Rightarrow> rat \<Rightarrow> (nat \<Rightarrow> rat) \<Rightarrow> int list" where
  "showBackOffIntervals attempts initial factor jitter random =
     map (\<lambda>index. parseInt_toString (initial * factor ^ index)
                  + parseInt_toString (random index * jitter))
         [0..<attempts]"

text \<open>
  \<^verbatim>\<open>showBackOffIntervals().forEach(ms => { setTimeout(() => { this.fetchAdditionalCandidates(host, id) }, ms) })\<close>
  with the default arguments (10, 50, 1.8, 20): the timers set, each with its delay.
\<close>

datatype timer_task = FetchAdditionalCandidates string string

definition schedule_candidate_polls ::
  "(nat \<Rightarrow> rat) \<Rightarrow> string \<Rightarrow> string \<Rightarrow> (int \<times> timer_task) list" where
  "schedule_candidate_polls random host cid =
     map (\<lambda>ms. (ms, FetchAdditionalCandidates host cid))
         (showBackOffIntervals 10 50 (9 / 5) 20 random)"

definition connect_candidate_poller ::
  "(nat \<Rightarrow> rat) \<Rightarrow> string \<Rightarrow> string \<Rightarrow> (int \<times> timer_task) list" where
  "connect_candidate_poller = schedule_candidate_polls"

definition reconnect_candidate_poller ::
  "(nat \<Rightarrow> rat) \<Rightarrow> string \<Rightarrow> string \<Rightarrow> (int \<times> timer_task) list" where
  "reconnect_candidate_poller = schedule_candidate_polls"

section \<open>Server connection: waiting for ICE candidates\<close>

text \<open>
  Source: \<^verbatim>\<open>src/unnamed/part_003\<close>, lines 9-11 and 205-247
  (\<^verbatim>\<open>waitUntilIceGatheringStateComplete\<close>). The promise, its timer and its listener are
  a record; time is in milliseconds.
\<close>

type_synonym candidate = string

datatype gathering_state = GatheringNew | Gathering | GatheringComplete

datatype wait_error = TimedOutWaitingForHostCandidates gathering_state

datatype settlement = Resolved | Rejected wait_error

record ice_wait =
  totalIceCandidates :: nat
  listening :: bool
  timeout_due :: "int option"
  settled :: "(int \<times> settlement) option"

definition TIME_TO_HOST_CANDIDATES :: int where
  "TIME_TO_HOST_CANDIDATES = 10000"


text \<open>
  The call itself, at time \<open>now\<close>: it returns at once when gathering is already complete;
  otherwise it sets the timer (\<^verbatim>\<open>setTimeout(..., timeToHostCandidates)\<close>) and registers
  the \<^verbatim>\<open>icecandidate\<close> listener.
\<close>

definition waitUntilIceGatheringStateComplete ::
  "int \<Rightarrow> gathering_state \<Rightarrow> int \<Rightarrow> ice_wait" where
  "waitUntilIceGatheringStateComplete now iceGatheringState timeToHostCandidates =
     (if iceGatheringState = GatheringComplete
      then \<lparr> totalIceCandidates = 0, listening = False, timeout_due = None,
             settled = Some (now, Resolved) \<rparr>
      else \<lparr> totalIceCandidates = 0, listening = True,
             timeout_due = Some (now + timeToHostCandidates), settled = None \<rparr>)"








section \<open>Server connection: \<open>WebRTCConnection\<close>\<close>

text \<open>
  Source: \<^verbatim>\<open>src/unnamed/part_003\<close>. The transport objects of the \<^verbatim>\<open>wrtc\<close> library
  (peer connection, transceivers, tracks) are records that hold what the source reads
  and writes of them.
\<close>

type_synonym ChannelId = string

datatype js_error = TypeError | InvalidStateError | TransportError string

datatype media_kind = AudioKind | VideoKind

text \<open>A media track; the receiving track of a transceiver is named by its place.\<close>

datatype track = ReceiverTrack ChannelId nat

record transceiver =
  tr_index :: nat
  tr_kind :: media_kind
  sender_track :: "track option"
  receiver_track :: track

record session_description =
  sd_type :: string
  sdp :: string

record rtc_configuration =
  sdpSemantics :: string
  cfg_iceServers :: "string list"
  cfg_iceTransportPolicy :: string
  cfg_portRange :: "(nat \<times> nat) option"

record peer_connection =
  pc_owner :: ChannelId
  pc_configuration :: rtc_configuration
  transceivers :: "transceiver list"
  localDescription :: "session_description option"
  remoteDescription :: "session_description option"
  pc_closed :: bool

datatype connection_state = ConnOpen | ConnClosed

text \<open>
  The fields of a \<^verbatim>\<open>WebRTCConnection\<close>. \<open>conn_id\<close> and \<open>conn_state\<close> are those of the base
  class \<^verbatim>\<open>Connection\<close>. \<^verbatim>\<open>audioMap\<close> and \<^verbatim>\<open>videoMap\<close> are JavaScript Maps: association
  lists in insertion order, written with \<open>AList.update\<close> (\<^verbatim>\<open>set\<close>) and \<open>AList.delete\<close>.
  \<open>ice_waits\<close> holds the waits that \<^verbatim>\<open>doOffer\<close> has started and not awaited. The data
  channel (\<^verbatim>\<open>CreateDataChannel\<close>) is not part of the model.
\<close>

record webrtc_connection =
  conn_id :: ChannelId
  conn_state :: connection_state
  peerConnection :: peer_connection
  additionalCandidates :: "candidate list"
  timeToHostCandidates :: int
  audio :: "transceiver option"
  video :: "transceiver option"
  audioMap :: "(ChannelId \<times> transceiver) list"
  videoMap :: "(ChannelId \<times> transceiver) list"
  userData :: string
  ice_waits :: "ice_wait list"

text \<open>The registry \<^verbatim>\<open>connections: Map<any, any>\<close> that every connection is given.\<close>

type_synonym registry = "(ChannelId \<times> webrtc_connection) list"

text \<open>\<^verbatim>\<open>ServerOptions\<close>; every field is optional.\<close>

record server_options =
  enableAudio :: "bool option"
  enableVideo :: "bool option"
  iceServers :: "string list option"
  iceTransportPolicy :: "string option"
  portRange :: "(nat \<times> nat) option"

text \<open>
  \<^verbatim>\<open>peerConnection.addTransceiver(kind)\<close>: a new transceiver with no track to send and a
  receiving track of its own. The transport raises \<^verbatim>\<open>InvalidStateError\<close> on a closed
  connection.
\<close>

definition addTransceiver ::
  "media_kind \<Rightarrow> peer_connection \<Rightarrow> js_error + (transceiver \<times> peer_connection)" where
  "addTransceiver k pc =
     (if pc_closed pc then Inl InvalidStateError
      else
        (let t = \<lparr> tr_index = length (transceivers pc), tr_kind = k, sender_track = None,
                    receiver_track = ReceiverTrack (pc_owner pc) (length (transceivers pc)) \<rparr>
         in Inr (t, pc\<lparr> transceivers := transceivers pc @ [t] \<rparr>)))"

text \<open>
  \<^verbatim>\<open>transceiver.sender.replaceTrack(withTrack)\<close>; the source does not await it and reads
  \<^verbatim>\<open>sender.track\<close> right after: \<^verbatim>\<open>wrtc\<close> sets the track before it returns.
\<close>

definition replaceTrack ::
  "track \<Rightarrow> transceiver \<Rightarrow> peer_connection \<Rightarrow> transceiver \<times> peer_connection" where
  "replaceTrack withTrack t pc =
     (let t' = t\<lparr> sender_track := Some withTrack \<rparr>
      in (t', pc\<lparr> transceivers := (transceivers pc)[tr_index t := t'] \<rparr>))"

text \<open>
  The video block and the audio block of \<^verbatim>\<open>setupStreams\<close> are the same text, one over
  \<^verbatim>\<open>video\<close> and \<^verbatim>\<open>videoMap\<close>, the other over \<^verbatim>\<open>audio\<close> and \<^verbatim>\<open>audioMap\<close>; the model writes it
  once, over the kind.
\<close>

fun own_transceiver :: "media_kind \<Rightarrow> webrtc_connection \<Rightarrow> transceiver option" where
  "own_transceiver VideoKind c = video c"
| "own_transceiver AudioKind c = audio c"

fun set_own_transceiver :: "media_kind \<Rightarrow> transceiver \<Rightarrow> webrtc_connection \<Rightarrow> webrtc_connection" where
  "set_own_transceiver VideoKind t c = c\<lparr> video := Some t \<rparr>"
| "set_own_transceiver AudioKind t c = c\<lparr> audio := Some t \<rparr>"

fun peer_map :: "media_kind \<Rightarrow> webrtc_connection \<Rightarrow> (ChannelId \<times> transceiver) list" where
  "peer_map VideoKind c = videoMap c"
| "peer_map AudioKind c = audioMap c"

fun peer_map_set ::
  "media_kind \<Rightarrow> ChannelId \<Rightarrow> transceiver \<Rightarrow> webrtc_connection \<Rightarrow> webrtc_connection" where
  "peer_map_set VideoKind k t c = c\<lparr> videoMap := AList.update k t (videoMap c) \<rparr>"
| "peer_map_set AudioKind k t c = c\<lparr> audioMap := AList.update k t (audioMap c) \<rparr>"

text \<open>
  One round of \<^verbatim>\<open>this.connections.forEach((theirConnection) => { ... })\<close>, for \<open>me\<close>
  (\<^verbatim>\<open>this\<close>) and \<open>their\<close>. Reading \<^verbatim>\<open>.receiver\<close> of a missing transceiver
  (\<^verbatim>\<open>theirConnection.video\<close> undefined) raises \<^verbatim>\<open>TypeError\<close>; what was changed before an
  error stays changed.
\<close>

definition route_pair ::
  "media_kind \<Rightarrow> webrtc_connection \<Rightarrow> webrtc_connection
     \<Rightarrow> js_error option \<times> webrtc_connection \<times> webrtc_connection" where
  "route_pair k me their =
     (case addTransceiver k (peerConnection their) of
        Inl e \<Rightarrow> (Some e, me, their)
      | Inr (theirT, their_pc) \<Rightarrow>
          (case own_transceiver k me of
             None \<Rightarrow> (Some TypeError, me, their\<lparr> peerConnection := their_pc \<rparr>)
           | Some mine \<Rightarrow>
               (let (theirT', their_pc') = replaceTrack (receiver_track mine) theirT their_pc;
                    their' = peer_map_set k (conn_id me) theirT'
                               (their\<lparr> peerConnection := their_pc' \<rparr>)
                in case addTransceiver k (peerConnection me) of
                     Inl e \<Rightarrow> (Some e, me, their')
                   | Inr (myT, my_pc) \<Rightarrow>
                       (case own_transceiver k their' of
                          None \<Rightarrow> (Some TypeError, me\<lparr> peerConnection := my_pc \<rparr>, their')
                        | Some theirs \<Rightarrow>
                            (let (myT', my_pc') = replaceTrack (receiver_track theirs) myT my_pc;
                                 me' = me\<lparr> peerConnection := my_pc' \<rparr>
                             in (None,
                                 if sender_track myT' \<noteq> None
                                 then peer_map_set k (conn_id their') myT' me'
                                 else me',
                                 their'))))))"

text \<open>The \<^verbatim>\<open>forEach\<close> over the registry, in insertion order, stopping at an error.\<close>

fun route_all ::
  "media_kind \<Rightarrow> webrtc_connection \<Rightarrow> registry \<Rightarrow> js_error option \<times> webrtc_connection \<times> registry" where
  "route_all k me [] = (None, me, [])"
| "route_all k me ((key, their) # rest) =
     (case route_pair k me their of
        (Some e, me', their') \<Rightarrow> (Some e, me', (key, their') # rest)
      | (None, me', their') \<Rightarrow>
          (case route_all k me' rest of
             (err, me'', rest') \<Rightarrow> (err, me'', (key, their') # rest')))"

text \<open>
  \<^verbatim>\<open>if (!this.video) { this.video = this.peerConnection.addTransceiver('video') }\<close>
  followed by the \<^verbatim>\<open>forEach\<close>.
\<close>

definition setup_kind ::
  "media_kind \<Rightarrow> webrtc_connection \<times> registry \<Rightarrow> js_error option \<times> webrtc_connection \<times> registry" where
  "setup_kind k s =
     (case s of (me, connections) \<Rightarrow>
        (case own_transceiver k me of
           Some t \<Rightarrow> route_all k me connections
         | None \<Rightarrow>
             (case addTransceiver k (peerConnection me) of
                Inl e \<Rightarrow> (Some e, me, connections)
              | Inr (t, pc) \<Rightarrow>
                  route_all k (set_own_transceiver k t (me\<lparr> peerConnection := pc \<rparr>)) connections)))"

text \<open>\<^verbatim>\<open>setupStreams(enableAudio, enableVideo)\<close>: the video block, then the audio block.\<close>

definition setupStreams ::
  "bool \<Rightarrow> bool \<Rightarrow> webrtc_connection \<times> registry
     \<Rightarrow> js_error option \<times> webrtc_connection \<times> registry" where
  "setupStreams enableAudio' enableVideo' s =
     (case (if enableVideo' then setup_kind VideoKind s else (None, s)) of
        (Some e, s') \<Rightarrow> (Some e, s')
      | (None, s') \<Rightarrow> (if enableAudio' then setup_kind AudioKind s' else (None, s')))"

text \<open>
  The constructor. The destructuring defaults (\<^verbatim>\<open>enableAudio = false\<close>, ...) apply to a
  missing field. It calls \<^verbatim>\<open>this.setupStreams(enableVideo, enableVideo)\<close>. The result is the
  error raised (if any), the new connection, and the registry, whose connections the
  routing has changed.
\<close>

definition WebRTCConnection ::
  "ChannelId \<Rightarrow> server_options \<Rightarrow> registry \<Rightarrow> string
     \<Rightarrow> js_error option \<times> webrtc_connection \<times> registry" where
  "WebRTCConnection cid serverOptions connections ud =
     (let enableAudio' = (case enableAudio serverOptions of Some b \<Rightarrow> b | None \<Rightarrow> False);
          enableVideo' = (case enableVideo serverOptions of Some b \<Rightarrow> b | None \<Rightarrow> False);
          iceServers' = (case iceServers serverOptions of Some l \<Rightarrow> l | None \<Rightarrow> []);
          iceTransportPolicy' =
            (case iceTransportPolicy serverOptions of Some p \<Rightarrow> p | None \<Rightarrow> ''all'');
          configuration =
            \<lparr> sdpSemantics = ''unified-plan'', cfg_iceServers = iceServers',
              cfg_iceTransportPolicy = iceTransportPolicy',
              cfg_portRange =
                (case portRange serverOptions of
                   Some (lo, hi) \<Rightarrow> if lo \<noteq> 0 \<and> hi \<noteq> 0 then Some (lo, hi) else None
                 | None \<Rightarrow> None) \<rparr>;
          me = \<lparr> conn_id = cid, conn_state = ConnOpen,
                 peerConnection =
                   \<lparr> pc_owner = cid, pc_configuration = configuration, transceivers = [],
                     localDescription = None, remoteDescription = None, pc_closed = False \<rparr>,
                 additionalCandidates = [],
                 timeToHostCandidates = TIME_TO_HOST_CANDIDATES,
                 audio = None, video = None, audioMap = [], videoMap = [],
                 userData = ud, ice_waits = [] \<rparr>
      in setupStreams enableVideo' enableVideo' (me, connections))"

text \<open>
  Modelled from the spec: \<^verbatim>\<open>super.close()\<close>, the \<^verbatim>\<open>close\<close> of the base class
  \<^verbatim>\<open>Connection\<close> (\<^verbatim>\<open>./connection\<close>), which is not among the sources. The spec (4.1)
  says of \<^verbatim>\<open>close()\<close>: "idempotent; tears down the transport primitive and marks
  Closed". This is its effect on the connection itself; the registry's part is
  \<open>registry_remove\<close> below.
\<close>

definition Connection_close :: "webrtc_connection \<Rightarrow> webrtc_connection" where
  "Connection_close c = c\<lparr> conn_state := ConnClosed \<rparr>"

text \<open>
  \<^verbatim>\<open>close()\<close> (lines 200-203): \<^verbatim>\<open>this.peerConnection.close(); super.close()\<close>.
  A closed peer connection of \<^verbatim>\<open>wrtc\<close> has no transceivers left
  (\<^verbatim>\<open>getTransceivers()\<close> is empty after \<^verbatim>\<open>close()\<close>). The fields \<^verbatim>\<open>audio\<close>, \<^verbatim>\<open>video\<close>,
  \<^verbatim>\<open>audioMap\<close> and \<^verbatim>\<open>videoMap\<close> of the connection are not written.
\<close>

definition WebRTCConnection_close :: "webrtc_connection \<Rightarrow> webrtc_connection" where
  "WebRTCConnection_close c =
     Connection_close
       (c\<lparr> peerConnection := (peerConnection c)\<lparr> pc_closed := True, transceivers := [] \<rparr> \<rparr>)"

text \<open>
  What \<^verbatim>\<open>doOffer\<close> gets from the transport and the clock: the results of
  \<^verbatim>\<open>createOffer()\<close> and \<^verbatim>\<open>setLocalDescription(offer)\<close>, the time, and the gathering state
  that \<^verbatim>\<open>waitUntilIceGatheringStateComplete\<close> reads.
\<close>

record offer_env =
  createOffer_result :: "js_error + session_description"
  setLocalDescription_result :: "js_error option"
  offer_time :: int
  offer_gathering :: gathering_state

text \<open>
  \<^verbatim>\<open>doOffer()\<close>: on success the offer is the local description and a wait is started
  (not awaited); on an error the connection is closed and the error raised again.
\<close>

definition doOffer :: "offer_env \<Rightarrow> webrtc_connection \<Rightarrow> js_error option \<times> webrtc_connection" where
  "doOffer env c =
     (case createOffer_result env of
        Inl e \<Rightarrow> (Some e, WebRTCConnection_close c)
      | Inr offer \<Rightarrow>
          (case setLocalDescription_result env of
             Some e \<Rightarrow> (Some e, WebRTCConnection_close c)
           | None \<Rightarrow>
               (None,
                c\<lparr> peerConnection := (peerConnection c)\<lparr> localDescription := Some offer \<rparr>,
                   ice_waits := ice_waits c @
                     [waitUntilIceGatheringStateComplete (offer_time env) (offer_gathering env)
                        (timeToHostCandidates c)] \<rparr>)))"

text \<open>\<^verbatim>\<open>reconnect()\<close>: \<^verbatim>\<open>await this.doOffer()\<close>.\<close>

definition reconnect :: "offer_env \<Rightarrow> webrtc_connection \<Rightarrow> js_error option \<times> webrtc_connection" where
  "reconnect env c = doOffer env c"

text \<open>
  \<^verbatim>\<open>applyAnswer(answer)\<close>: \<^verbatim>\<open>await this.peerConnection.setRemoteDescription(answer)\<close>;
  \<open>Inl\<close> is the transport's rejection.
\<close>

definition applyAnswer ::
  "js_error + session_description \<Rightarrow> webrtc_connection \<Rightarrow> js_error option \<times> webrtc_connection" where
  "applyAnswer answer c =
     (case answer of
        Inl e \<Rightarrow> (Some e, c)
      | Inr d \<Rightarrow> (None, c\<lparr> peerConnection := (peerConnection c)\<lparr> remoteDescription := Some d \<rparr> \<rparr>))"

section \<open>Server: the connection registry\<close>

text \<open>
  The registry's own code (\<^verbatim>\<open>ConnectionsManagerServer\<close>, \<^verbatim>\<open>../wrtc/connectionsManager\<close>)
  is not among the sources; the sources only call it and hand its Map to every
  connection.
\<close>

text \<open>
  Modelled from the spec: \<^verbatim>\<open>connectionsManager.getConnection(id)\<close>, the lookup in the
  registry, "the responding side's table of all live connections"; an unknown id
  yields nothing ("\<open>UnknownConnection\<close> (id not in registry -- 404)").
\<close>

definition getConnection :: "ChannelId \<Rightarrow> registry \<Rightarrow> webrtc_connection option" where
  "getConnection cid connections = map_of connections cid"

text \<open>
  Modelled from the spec: creating a connection. "A client requests a new session", the
  "registry creates a negotiation instance", which "attaches this connection's outbound
  audio/video and the router wires up existing peers' tracks against it" (the
  constructor, from the source), and the new connection becomes a member of the
  registry under its id.
\<close>

definition registry_create ::
  "server_options \<Rightarrow> ChannelId \<Rightarrow> string \<Rightarrow> registry \<Rightarrow> js_error option \<times> registry" where
  "registry_create serverOptions cid ud connections =
     (case WebRTCConnection cid serverOptions connections ud of
        (Some e, me, connections') \<Rightarrow> (Some e, connections')
      | (None, me, connections') \<Rightarrow> (None, AList.update cid me connections'))"

text \<open>
  Modelled from the spec: the registry's part of a close. "A connection only appears in
  another connection's \<open>peerRoutes\<close> while both are members of the registry", and (4.4)
  "On close of connection X, remove X from every other live connection's \<open>peerRoutes\<close>";
  \<open>peerRoutes\<close> is the pair \<^verbatim>\<open>audioMap\<close>, \<^verbatim>\<open>videoMap\<close>.
\<close>

definition registry_remove :: "ChannelId \<Rightarrow> registry \<Rightarrow> registry" where
  "registry_remove x connections =
     map (\<lambda>(k, c). (k, c\<lparr> audioMap := AList.delete x (audioMap c),
                          videoMap := AList.delete x (videoMap c) \<rparr>))
         (AList.delete x connections)"

text \<open>
  Closing the connection registered under \<open>x\<close>: \<^verbatim>\<open>WebRTCConnection.close()\<close> on the
  object, then the registry's part.
\<close>

definition close_connection :: "ChannelId \<Rightarrow> registry \<Rightarrow> registry" where
  "close_connection x connections =
     (case getConnection x connections of
        None \<Rightarrow> connections
      | Some c \<Rightarrow> registry_remove x (AList.update x (WebRTCConnection_close c) connections))"

text \<open>A history of the registry: connections created and closed, from the empty registry.\<close>

datatype registry_op = Create ChannelId string | Close ChannelId

fun apply_op :: "server_options \<Rightarrow> registry_op \<Rightarrow> registry \<Rightarrow> js_error option \<times> registry" where
  "apply_op serverOptions (Create cid ud) connections =
     registry_create serverOptions cid ud connections"
| "apply_op serverOptions (Close cid) connections = (None, close_connection cid connections)"

fun run_ops :: "server_options \<Rightarrow> registry_op list \<Rightarrow> registry \<Rightarrow> js_error option \<times> registry" where
  "run_ops serverOptions [] connections = (None, connections)"
| "run_ops serverOptions (op # ops) connections =
     (case apply_op serverOptions op connections of
        (Some e, connections') \<Rightarrow> (Some e, connections')
      | (None, connections') \<Rightarrow> run_ops serverOptions ops connections')"

text \<open>
  Every created id is new, that is, not the id of a connection that is live at that
  moment (the spec: "\<open>id\<close> is unique across all live connections at all times").
\<close>

fun ids_unique :: "registry_op list \<Rightarrow> ChannelId list \<Rightarrow> bool" where
  "ids_unique [] live = True"
| "ids_unique (Create cid ud # ops) live = (cid \<notin> set live \<and> ids_unique ops (cid # live))"
| "ids_unique (Close cid # ops) live = ids_unique ops (removeAll cid live)"

section \<open>Server: the HTTP signaling endpoint\<close>

text \<open>
  Source: \<^verbatim>\<open>src/unnamed/part_002\<close> (\<^verbatim>\<open>HttpServer\<close>).

  The regular expressions of the source use three forms: a literal character, \<^verbatim>\<open>.\<close> (any
  character but a line terminator) and \<^verbatim>\<open>[0-9a-zA-Z]+\<close>.
\<close>

datatype re_atom = Lit char | AnyChar | AlnumPlus

definition alnum :: "char \<Rightarrow> bool" where
  "alnum c = (c \<in> set ''0123456789abcdefghijklmnopqrstuvwxyzABCDEFGHIJKLMNOPQRSTUVWXYZ'')"

definition line_terminator :: "char \<Rightarrow> bool" where
  "line_terminator c = (c = CHR 0x0A \<or> c = CHR 0x0D)"

text \<open>A match of the whole expression at the start of the string.\<close>

fun match_here :: "re_atom list \<Rightarrow> string \<Rightarrow> bool" where
  "match_here [] s = True"
| "match_here (a # re) [] = False"
| "match_here (Lit c # re) (x # xs) = (x = c \<and> match_here re xs)"
| "match_here (AnyChar # re) (x # xs) = (\<not> line_terminator x \<and> match_here re xs)"
| "match_here (AlnumPlus # re) (x # xs) =
     (alnum x \<and> (match_here (AlnumPlus # re) xs \<or> match_here re xs))"

text \<open>\<^verbatim>\<open>regex.test(s)\<close>: a match that starts anywhere in the string.\<close>

fun regex_test :: "re_atom list \<Rightarrow> string \<Rightarrow> bool" where
  "regex_test re [] = match_here re []"
| "regex_test re (x # xs) = (match_here re (x # xs) \<or> regex_test re xs)"

text \<open>
  \<^verbatim>\<open>pathname.match(/[0-9a-zA-Z]{24}/g)\<close>: the successive matches from left to right, none
  overlapping another. (JavaScript returns \<^verbatim>\<open>null\<close> for no match; the source only asks
  whether there is exactly one.)
\<close>

function match_ids :: "string \<Rightarrow> string list" where
  "match_ids s =
     (if length s < 24 then []
      else if list_all alnum (take 24 s) then take 24 s # match_ids (drop 24 s)
      else match_ids (tl s))"
  by pat_completeness auto
termination
  by (relation "measure length") auto

declare match_ids.simps [simp del]

definition root :: string where
  "root = ''/.wrtc/v1''"

text \<open>\<^verbatim>\<open>new RegExp(`/${prefix}/${version}`)\<close> with \<^verbatim>\<open>prefix = '.wrtc'\<close>, \<^verbatim>\<open>version = 'v1'\<close>.\<close>

definition rootRegEx :: "re_atom list" where
  "rootRegEx = Lit CHR ''/'' # AnyChar # map Lit ''wrtc/v1''"

text \<open>
  \<^verbatim>\<open>new RegExp(`${prefix}\/${version}\/connections\/[0-9a-zA-Z]+\/NAME`)\<close>, for NAME one of
  \<^verbatim>\<open>remote-description\<close>, \<^verbatim>\<open>additional-candidates\<close>, \<^verbatim>\<open>close\<close>, \<^verbatim>\<open>reconnect\<close>,
  \<^verbatim>\<open>streams\<close>.
\<close>

definition connection_path :: "string \<Rightarrow> re_atom list" where
  "connection_path name =
     AnyChar # map Lit ''wrtc/v1/connections/'' @ AlnumPlus # map Lit (''/'' @ name)"

text \<open>
  A request: the pathname of its URL (\<open>None\<close> when \<^verbatim>\<open>req.url\<close> is missing), its method, its
  \<^verbatim>\<open>Authorization\<close> header, and the result of \<^verbatim>\<open>ParseBody(req)\<close> (\<open>None\<close> when it fails;
  \<^verbatim>\<open>ParseBody\<close> is not among the sources).
\<close>

record http_request =
  req_pathname :: "string option"
  req_method :: "string option"
  req_authorization :: "string option"
  parsed_body :: "string option"

text \<open>What \<^verbatim>\<open>JSON.stringify\<close> is given to write, by endpoint.\<close>

datatype response_json =
    CreatedJson string webrtc_connection
  | DescriptionJson "session_description option"
  | CandidatesJson "candidate list"
  | ConnectionJson webrtc_connection
  | StreamsJson "(string \<times> ChannelId) list" "(string \<times> ChannelId) list"

text \<open>
  The response: the status code (200 until \<^verbatim>\<open>writeHead\<close> sets another), the headers set,
  what \<^verbatim>\<open>res.write\<close> has written, whether \<^verbatim>\<open>res.end()\<close> was called, and whether the request
  was handed to the listeners that were registered before (\<^verbatim>\<open>evs\<close>).
\<close>

record http_response =
  statusCode :: nat
  res_headers :: "(string \<times> string) list"
  written :: "response_json list"
  ended :: bool
  handed_on :: bool

definition new_response :: http_response where
  "new_response = \<lparr> statusCode = 200, res_headers = [], written = [], ended = False,
                     handed_on = False \<rparr>"

text \<open>\<^verbatim>\<open>const end = (res, statusCode) => { res.writeHead(statusCode); res.end() }\<close>.\<close>

definition end_with :: "nat \<Rightarrow> http_response \<Rightarrow> http_response" where
  "end_with status res = res\<lparr> statusCode := status, ended := True \<rparr>"

text \<open>\<^verbatim>\<open>res.write(JSON.stringify(v)); res.end()\<close>.\<close>

definition write_end :: "response_json \<Rightarrow> http_response \<Rightarrow> http_response" where
  "write_end v res = res\<lparr> written := written res @ [v], ended := True \<rparr>"

text \<open>
  What one request gets from outside the handler: the headers \<^verbatim>\<open>SetCORS\<close> sets (not among
  the sources), the outcome of \<^verbatim>\<open>JSON.parse(body)\<close> and \<^verbatim>\<open>setRemoteDescription\<close> for the
  remote-description endpoint, what \<^verbatim>\<open>doOffer\<close> gets for the reconnect endpoint, and, for
  the streams endpoint, the \<^verbatim>\<open>mid\<close> that the transport reports for the transceiver at each
  index of the connection's peer connection (\<open>None\<close> is \<^verbatim>\<open>null\<close>: no \<^verbatim>\<open>mid\<close> is assigned
  before a description has been applied).
\<close>

record request_env =
  cors_headers :: "(string \<times> string) list"
  answer_result :: "js_error + session_description"
  offer_results :: offer_env
  transceiver_mid :: "nat \<Rightarrow> string option"

text \<open>
  \<^verbatim>\<open>connectionsManager.createConnection(authorization, req, res)\<close> is not among the
  sources; the handler takes it as a parameter: from the header and the registry to
  \<^verbatim>\<open>{ status, connection, userData }\<close> (or an error raised) and the registry afterwards.
\<close>

type_synonym create_connection =
  "string option \<Rightarrow> registry
     \<Rightarrow> (js_error + (int \<times> webrtc_connection option \<times> string)) \<times> registry"

text \<open>\<^verbatim>\<open>method === 'POST' && path1\<close>: create a connection.\<close>

definition create_endpoint ::
  "create_connection \<Rightarrow> http_request \<Rightarrow> http_response \<Rightarrow> registry \<Rightarrow> http_response \<times> registry" where
  "create_endpoint createConnection req res connections =
     (case createConnection (req_authorization req) connections of
        (Inl e, connections') \<Rightarrow> (end_with 500 res, connections')
      | (Inr (status, connection, ud), connections') \<Rightarrow>
          (if status \<noteq> 200 then
             (if 100 \<le> status \<and> status < 600 then (end_with (nat status) res, connections')
              else (end_with 500 res, connections'))
           else
             (case connection of
                None \<Rightarrow> (end_with 500 res, connections')
              | Some c \<Rightarrow>
                  if conn_id c = [] then (end_with 500 res, connections')
                  else (write_end (CreatedJson ud c) res, connections'))))"

text \<open>\<^verbatim>\<open>method === 'POST' && path2\<close>: the peer's answer.\<close>

definition remote_description_endpoint ::
  "request_env \<Rightarrow> string \<Rightarrow> http_response \<Rightarrow> registry \<Rightarrow> http_response \<times> registry" where
  "remote_description_endpoint env p res connections =
     (case match_ids p of
        [cid] \<Rightarrow>
          (case getConnection cid connections of
             None \<Rightarrow> (end_with 404 res, connections)
           | Some connection \<Rightarrow>
               (case applyAnswer (answer_result env) connection of
                  (Some e, c') \<Rightarrow> (end_with 400 res, AList.update cid c' connections)
                | (None, c') \<Rightarrow>
                    (write_end (DescriptionJson (remoteDescription (peerConnection c'))) res,
                     AList.update cid c' connections)))
      | _ \<Rightarrow> (end_with 400 res, connections))"

text \<open>\<^verbatim>\<open>method === 'GET' && path3\<close>: the candidates found since the last poll.\<close>

definition additional_candidates_endpoint ::
  "string \<Rightarrow> http_response \<Rightarrow> registry \<Rightarrow> http_response \<times> registry" where
  "additional_candidates_endpoint p res connections =
     (case match_ids p of
        [cid] \<Rightarrow>
          (case getConnection cid connections of
             None \<Rightarrow> (end_with 404 res, connections)
           | Some connection \<Rightarrow>
               (let additionalCandidates' = additionalCandidates connection;
                    connection' = connection\<lparr> additionalCandidates := [] \<rparr>
                in (write_end (CandidatesJson additionalCandidates') res,
                    AList.update cid connection' connections)))
      | _ \<Rightarrow> (end_with 400 res, connections))"

text \<open>
  \<^verbatim>\<open>method === 'POST' && closePath\<close>: \<^verbatim>\<open>connection?.close()\<close>, and nothing after it; the
  other branch ends the response with 400.
\<close>

definition close_endpoint ::
  "string \<Rightarrow> http_response \<Rightarrow> registry \<Rightarrow> http_response \<times> registry" where
  "close_endpoint p res connections =
     (case match_ids p of
        [cid] \<Rightarrow> (res, close_connection cid connections)
      | _ \<Rightarrow> (end_with 400 res, connections))"

text \<open>
  \<^verbatim>\<open>method === 'POST' && reconnectPath\<close>. A failed \<^verbatim>\<open>doOffer\<close> has closed the connection
  before the error reaches the handler.
\<close>

definition reconnect_endpoint ::
  "request_env \<Rightarrow> string \<Rightarrow> http_response \<Rightarrow> registry \<Rightarrow> http_response \<times> registry" where
  "reconnect_endpoint env p res connections =
     (case match_ids p of
        [cid] \<Rightarrow>
          (case getConnection cid connections of
             None \<Rightarrow> (end_with 404 res, connections)
           | Some connection \<Rightarrow>
               (case reconnect (offer_results env) connection of
                  (Some e, c') \<Rightarrow>
                    (end_with 400 res, registry_remove cid (AList.update cid c' connections))
                | (None, c') \<Rightarrow>
                    (write_end (ConnectionJson c') res, AList.update cid c' connections)))
      | _ \<Rightarrow> (end_with 400 res, connections))"

text \<open>
  \<^verbatim>\<open>const videoMap = new Map(); myConnection.videoMap.forEach((transceiver, channelId) => {
  videoMap.set(transceiver.mid, channelId) })\<close>, then \<^verbatim>\<open>Object.fromEntries(videoMap)\<close>:
  a Map keyed by \<^verbatim>\<open>mid\<close>, where a later entry with the same \<^verbatim>\<open>mid\<close> replaces the
  earlier one (all entries without a \<^verbatim>\<open>mid\<close> share the key \<^verbatim>\<open>null\<close>), turned into an
  object, whose keys are strings. The result lists the object's entries; the order in
  which \<^verbatim>\<open>JSON.stringify\<close> prints them is not part of the model.
\<close>

definition mids_object ::
  "(nat \<Rightarrow> string option) \<Rightarrow> (ChannelId \<times> transceiver) list \<Rightarrow> (string \<times> ChannelId) list" where
  "mids_object mid_of routes =
     (let by_mid = foldl (\<lambda>m (channelId, t). AList.update (mid_of (tr_index t)) channelId m)
                         [] routes
      in foldl (\<lambda>obj (k, v). AList.update (case k of None \<Rightarrow> ''null'' | Some s \<Rightarrow> s) v obj)
               [] by_mid)"

text \<open>\<^verbatim>\<open>method === 'POST' && streamsPath\<close>.\<close>

definition streams_endpoint ::
  "request_env \<Rightarrow> string \<Rightarrow> http_response \<Rightarrow> registry \<Rightarrow> http_response \<times> registry" where
  "streams_endpoint env p res connections =
     (case match_ids p of
        [cid] \<Rightarrow>
          (case getConnection cid connections of
             None \<Rightarrow> (end_with 404 res, connections)
           | Some myConnection \<Rightarrow>
               (write_end
                  (StreamsJson (mids_object (transceiver_mid env) (audioMap myConnection))
                               (mids_object (transceiver_mid env) (videoMap myConnection)))
                  res,
                connections))
      | _ \<Rightarrow> (end_with 400 res, connections))"

text \<open>The \<^verbatim>\<open>'request'\<close> listener.\<close>

definition HttpServer ::
  "create_connection \<Rightarrow> request_env \<Rightarrow> http_request \<Rightarrow> registry \<Rightarrow> http_response \<times> registry" where
  "HttpServer createConnection env req connections =
     (case req_pathname req of
        None \<Rightarrow> (new_response\<lparr> handed_on := True \<rparr>, connections)
      | Some p \<Rightarrow>
          if p = [] \<or> \<not> regex_test rootRegEx p
          then (new_response\<lparr> handed_on := True \<rparr>, connections)
          else
            (let res = new_response\<lparr> res_headers := cors_headers env \<rparr> in
             if req_method req = Some ''OPTIONS'' then (end_with 200 res, connections)
             else
               (case parsed_body req of
                  None \<Rightarrow> (end_with 400 res, connections)
                | Some body \<Rightarrow>
                    (let res = res\<lparr> res_headers :=
                                     res_headers res @ [(''Content-Type'', ''application/json'')] \<rparr>
                     in case req_method req of
                          None \<Rightarrow> (res, connections)
                        | Some m \<Rightarrow>
                            if m = [] then (res, connections)
                            else if m = ''POST'' \<and> p = root @ ''/connections''
                              then create_endpoint createConnection req res connections
                            else if m = ''POST'' \<and> regex_test (connection_path ''remote-description'') p
                              then remote_description_endpoint env p res connections
                            else if m = ''GET'' \<and> regex_test (connection_path ''additional-candidates'') p
                              then additional_candidates_endpoint p res connections
                            else if m = ''POST'' \<and> regex_test (connection_path ''close'') p
                              then close_endpoint p res connections
                            else if m = ''POST'' \<and> regex_test (connection_path ''reconnect'') p
                              then reconnect_endpoint env p res connections
                            else if m = ''POST'' \<and> regex_test (connection_path ''streams'') p
                              then streams_endpoint env p res connections
                            else (end_with 404 res, connections)))))"

text \<open>
  The client's \<^verbatim>\<open>fetchAdditionalCandidates\<close> (\<^verbatim>\<open>src/unnamed/part_000\<close>, lines 55-69): when
  the response is \<^verbatim>\<open>ok\<close> (status 200-299), each candidate of the array is added to the
  local peer connection, in order. \<open>installed\<close> is what has been added so far.
\<close>

definition fetchAdditionalCandidates :: "http_response \<Rightarrow> candidate list \<Rightarrow> candidate list" where
  "fetchAdditionalCandidates res installed =
     (if 200 \<le> statusCode res \<and> statusCode res \<le> 299
      then (case written res of
              [CandidatesJson candidates] \<Rightarrow> installed @ candidates
            | _ \<Rightarrow> installed)
      else installed)"

section \<open>Server: invariants of the routing tables\<close>

text \<open>The ids that a connection has a route of kind \<open>k\<close> to.\<close>

definition route_keys :: "media_kind \<Rightarrow> webrtc_connection \<Rightarrow> ChannelId set" where
  "route_keys k c = fst ` set (peer_map k c)"

text \<open>
  \<open>c'\<close> is \<open>c\<close> but for its transceiver list and its routes of kind \<open>k\<close>: what one
  round of routing may change of a connection.
\<close>

definition same_but_routes :: "media_kind \<Rightarrow> webrtc_connection \<Rightarrow> webrtc_connection \<Rightarrow> bool" where
  "same_but_routes k c c' =
     (conn_id c' = conn_id c
      \<and> pc_closed (peerConnection c') = pc_closed (peerConnection c)
      \<and> video c' = video c \<and> audio c' = audio c
      \<and> (case k of VideoKind \<Rightarrow> audioMap c' = audioMap c
                   | AudioKind \<Rightarrow> videoMap c' = videoMap c))"

text \<open>
  A registered connection in a registry with the ids \<open>live\<close>, video enabled: it is
  registered under its own id, open, has its own two transceivers, and has a route to
  every other live id and to nothing else.
\<close>

definition conn_ok :: "ChannelId set \<Rightarrow> ChannelId \<Rightarrow> webrtc_connection \<Rightarrow> bool" where
  "conn_ok live key c =
     (conn_id c = key \<and> \<not> pc_closed (peerConnection c)
      \<and> video c \<noteq> None \<and> audio c \<noteq> None
      \<and> fst ` set (videoMap c) = live - {key}
      \<and> fst ` set (audioMap c) = live - {key})"

definition registry_ok :: "registry \<Rightarrow> bool" where
  "registry_ok connections =
     (distinct (map fst connections)
      \<and> (\<forall>(key, c)\<in>set connections. conn_ok (fst ` set connections) key c))"

section \<open>Sample values\<close>

text \<open>Concrete options, requests and connections, used to run the model.\<close>

definition no_media :: server_options where
  "no_media = \<lparr> enableAudio = None, enableVideo = None, iceServers = None,
                 iceTransportPolicy = None, portRange = None \<rparr>"

definition failing_create :: create_connection where
  "failing_create auth connections = (Inl (TransportError ''unused''), connections)"

definition quiet_env :: request_env where
  "quiet_env = \<lparr> cors_headers = [],
                   answer_result = Inl (TransportError ''unused''),
                   offer_results = \<lparr> createOffer_result = Inl (TransportError ''unused''),
                                     setLocalDescription_result = None,
                                     offer_time = 0, offer_gathering = GatheringNew \<rparr>,
                   transceiver_mid = (\<lambda>index. None) \<rparr>"

definition sample_id :: ChannelId where
  "sample_id = ''abcdefghijklmnopqrstuvwx''"

definition sample_registry :: registry where
  "sample_registry = snd (registry_create no_media sample_id ''u'' [])"

definition sample_offer :: session_description where
  "sample_offer = \<lparr> sd_type = ''offer'', sdp = ''v=0'' \<rparr>"

definition good_offer_env :: offer_env where
  "good_offer_env = \<lparr> createOffer_result = Inr sample_offer, setLocalDescription_result = None,
                        offer_time = 0, offer_gathering = GatheringNew \<rparr>"

definition bad_offer_env :: offer_env where
  "bad_offer_env = \<lparr> createOffer_result = Inl InvalidStateError, setLocalDescription_result = None,
                       offer_time = 0, offer_gathering = GatheringNew \<rparr>"

definition sample_connection :: webrtc_connection where
  "sample_connection =
     fst (snd (WebRTCConnection sample_id (no_media\<lparr> enableVideo := Some True \<rparr>) [] ''u''))"

definition video_options :: server_options where
  "video_options = no_media\<lparr> enableVideo := Some True \<rparr>"

section \<open>Properties of the client channel\<close>

lemma set_splice1: "set (splice1 k xs) \<subseteq> set xs"
  unfolding splice1_def by (auto dest: in_set_takeD in_set_dropD)

lemma splice1_keeps:
  assumes "r \<in> set xs" "k < length xs" "r \<noteq> xs ! k"
  shows "r \<in> set (splice1 k xs)"
proof -
  have "xs = take k xs @ xs ! k # drop (Suc k) xs"
    using assms(2) by (rule id_take_nth_drop)
  then have "set xs = set (take k xs @ xs ! k # drop (Suc k) xs)"
    by (rule arg_cong)
  then have "r \<in> set (take k xs) \<or> r = xs ! k \<or> r \<in> set (drop (Suc k) xs)"
    using assms(1) by (auto simp del: append_take_drop_id)
  with assms(3) show ?thesis unfolding splice1_def by auto
qed

lemma forEach_splice_subset: "set (forEach_splice t k len xs) \<subseteq> set xs"
proof (induction t k len xs rule: forEach_splice.induct)
  case (1 t k len xs)
  consider (rm) "k < len" "k < length xs" "expire (xs ! k) \<le> t"
    | (keep) "k < len" "k < length xs" "\<not> expire (xs ! k) \<le> t"
    | (hole) "k < len" "\<not> k < length xs"
    | (stop) "\<not> k < len"
    by blast
  then show ?case
  proof cases
    case rm
    have "forEach_splice t k len xs = forEach_splice t (Suc k) len (splice1 k xs)"
      using rm by (simp add: forEach_splice.simps [of t k len xs])
    moreover have "set (forEach_splice t (Suc k) len (splice1 k xs)) \<subseteq> set (splice1 k xs)"
      using rm by (rule "1.IH"(1))
    ultimately show ?thesis using set_splice1 [of k xs] by auto
  next
    case keep
    have "forEach_splice t k len xs = forEach_splice t (Suc k) len xs"
      using keep by (simp add: forEach_splice.simps [of t k len xs])
    moreover have "set (forEach_splice t (Suc k) len xs) \<subseteq> set xs"
      using keep by (rule "1.IH"(2))
    ultimately show ?thesis by simp
  next
    case hole
    have "forEach_splice t k len xs = forEach_splice t (Suc k) len xs"
      using hole by (simp add: forEach_splice.simps [of t k len xs])
    moreover have "set (forEach_splice t (Suc k) len xs) \<subseteq> set xs"
      using hole by (rule "1.IH"(3))
    ultimately show ?thesis by simp
  next
    case stop
    then show ?thesis by (simp add: forEach_splice.simps [of t k len xs])
  qed
qed

lemma forEach_splice_keeps:
  "r \<in> set xs \<Longrightarrow> t < expire r \<Longrightarrow> r \<in> set (forEach_splice t k len xs)"
proof (induction t k len xs rule: forEach_splice.induct)
  case (1 t k len xs)
  consider (rm) "k < len" "k < length xs" "expire (xs ! k) \<le> t"
    | (keep) "k < len" "k < length xs" "\<not> expire (xs ! k) \<le> t"
    | (hole) "k < len" "\<not> k < length xs"
    | (stop) "\<not> k < len"
    by blast
  then show ?case
  proof cases
    case rm
    have "r \<noteq> xs ! k" using rm(3) "1.prems"(2) by auto
    then have "r \<in> set (splice1 k xs)"
      using rm(2) "1.prems"(1) by (simp add: splice1_keeps)
    then have "r \<in> set (forEach_splice t (Suc k) len (splice1 k xs))"
      using rm "1.prems"(2) "1.IH"(1) by blast
    then show ?thesis
      using rm by (simp add: forEach_splice.simps [of t k len xs])
  next
    case keep
    have "r \<in> set (forEach_splice t (Suc k) len xs)"
      using keep "1.prems" "1.IH"(2) by blast
    then show ?thesis
      using keep by (simp add: forEach_splice.simps [of t k len xs])
  next
    case hole
    have "r \<in> set (forEach_splice t (Suc k) len xs)"
      using hole "1.prems" "1.IH"(3) by blast
    then show ?thesis
      using hole by (simp add: forEach_splice.simps [of t k len xs])
  next
    case stop
    then show ?thesis
      using "1.prems"(1) by (simp add: forEach_splice.simps [of t k len xs])
  qed
qed

lemma reliable_with_id_isReliable:
  "reliable_with_id d i \<Longrightarrow> i \<noteq> ''undefined'' \<Longrightarrow> isReliableMessage d"
  by (cases d) (auto simp: reliable_with_id_def isReliableMessage_def)

lemma on_message_keeps:
  "r \<in> set ledger \<Longrightarrow> t_prune clk < expire r \<Longrightarrow> r \<in> set (snd (on_message d clk ledger))"
  by (auto simp: on_message_def Let_def deleteExpiredReliableMessages_def forEach_splice_keeps)

lemma on_message_drops:
  assumes "r \<in> set ledger" "msg_id r = JStr i" "t_prune clk < expire r"
    "reliable_with_id d i" "i \<noteq> ''undefined''"
  shows "fst (on_message d clk ledger) = None"
proof -
  have "r \<in> set (deleteExpiredReliableMessages (t_prune clk) ledger)"
    using assms by (simp add: deleteExpiredReliableMessages_def forEach_splice_keeps)
  moreover have "strict_eq (msg_id r) (get_prop d ''ID'')"
    using assms by (simp add: reliable_with_id_def)
  ultimately have "filter (\<lambda>obj. strict_eq (msg_id obj) (get_prop d ''ID''))
      (deleteExpiredReliableMessages (t_prune clk) ledger) \<noteq> []"
    by (auto simp: filter_empty_conv)
  then show ?thesis
    using reliable_with_id_isReliable [OF assms(4,5)]
    by (simp add: on_message_def Let_def)
qed

lemma on_message_first:
  assumes "\<forall>r\<in>set ledger. msg_id r \<noteq> JStr i" "reliable_with_id d i" "i \<noteq> ''undefined''"
  shows "on_message d clk ledger =
     (Some (get_prop d ''MESSAGE''),
      deleteExpiredReliableMessages (t_prune clk) ledger @
        [\<lparr> msg_id = JStr i, timestamp = t_stamp clk, expire = t_expire clk + expireTime \<rparr>])"
proof -
  have "\<forall>r\<in>set (deleteExpiredReliableMessages (t_prune clk) ledger). msg_id r \<noteq> JStr i"
    using assms(1) forEach_splice_subset unfolding deleteExpiredReliableMessages_def by blast
  then have "\<forall>r\<in>set (deleteExpiredReliableMessages (t_prune clk) ledger).
      \<not> strict_eq (msg_id r) (JStr i)"
    by (auto elim: strict_eq.elims)
  then have "filter (\<lambda>obj. strict_eq (msg_id obj) (get_prop d ''ID''))
      (deleteExpiredReliableMessages (t_prune clk) ledger) = []"
    using assms(2) by (simp add: filter_empty_conv reliable_with_id_def)
  then show ?thesis
    using reliable_with_id_isReliable [OF assms(2,3)] assms(2)
    by (simp add: on_message_def Let_def reliable_with_id_def)
qed

lemma later_all_dropped:
  assumes "i \<noteq> ''undefined''"
  shows "r \<in> set ledger \<Longrightarrow> msg_id r = JStr i \<Longrightarrow>
     \<forall>(d, c)\<in>set later. t_prune c < expire r \<Longrightarrow>
     outcomes_for i later ledger =
       replicate (length (filter (\<lambda>e. reliable_with_id (fst e) i) later)) None"
proof (induction later arbitrary: ledger)
  case Nil
  then show ?case by (simp add: outcomes_for_def)
next
  case (Cons e later)
  obtain d c where e: "e = (d, c)" by (cases e)
  obtain out l' where step: "on_message d c ledger = (out, l')" by (cases "on_message d c ledger")
  have c: "t_prune c < expire r" using Cons.prems e by auto
  have "r \<in> set l'" using on_message_keeps [OF Cons.prems(1) c, of d] step by simp
  then have IH: "outcomes_for i later l' =
       replicate (length (filter (\<lambda>e. reliable_with_id (fst e) i) later)) None"
    using Cons.IH Cons.prems by auto
  have out: "reliable_with_id d i \<Longrightarrow> out = None"
    using on_message_drops [OF Cons.prems(1,2) c _ assms, of d] step by simp
  show ?case
    using IH out
    by (auto simp: outcomes_for_def e step split: prod.splits)
qed

lemma untracked_id_delivered_once:
  assumes "i \<noteq> ''undefined''"
    and "\<forall>r\<in>set ledger. msg_id r \<noteq> JStr i"
    and "reliable_with_id d0 i"
    and "\<forall>(d, c)\<in>set later. t_prune c < t_expire c0 + expireTime"
  shows "outcomes_for i ((d0, c0) # later) ledger =
     Some (get_prop d0 ''MESSAGE'')
       # replicate (length (filter (\<lambda>e. reliable_with_id (fst e) i) later)) None"
proof -
  let ?r = "\<lparr> msg_id = JStr i, timestamp = t_stamp c0, expire = t_expire c0 + expireTime \<rparr>"
  let ?l = "deleteExpiredReliableMessages (t_prune c0) ledger @ [?r]"
  have step: "on_message d0 c0 ledger = (Some (get_prop d0 ''MESSAGE''), ?l)"
    using assms(2,3,1) by (rule on_message_first)
  have "outcomes_for i later ?l =
      replicate (length (filter (\<lambda>e. reliable_with_id (fst e) i) later)) None"
    using assms(1,4) by (intro later_all_dropped [where r = ?r]) auto
  then show ?thesis
    using assms(3)
    by (cases "receive_all later ?l") (simp add: outcomes_for_def step)
qed

lemma receive_all_length: "length (fst (receive_all xs l)) = length xs"
proof (induction xs arbitrary: l)
  case Nil
  then show ?case by simp
next
  case (Cons e xs)
  obtain d c where e: "e = (d, c)" by (cases e)
  obtain out l1 where s: "on_message d c l = (out, l1)" by (cases "on_message d c l")
  obtain outs l2 where r: "receive_all xs l1 = (outs, l2)" by (cases "receive_all xs l1")
  have "length outs = length xs" using Cons.IH [of l1] r by simp
  then show ?case by (simp add: e s r)
qed

lemma receive_all_append:
  "receive_all (xs @ ys) l =
     (fst (receive_all xs l) @ fst (receive_all ys (snd (receive_all xs l))),
      snd (receive_all ys (snd (receive_all xs l))))"
proof (induction xs arbitrary: l)
  case Nil
  then show ?case by simp
next
  case (Cons e xs)
  obtain d c where e: "e = (d, c)" by (cases e)
  obtain out l1 where s: "on_message d c l = (out, l1)" by (cases "on_message d c l")
  show ?case
    using Cons.IH [of l1] by (simp add: e s split: prod.splits)
qed

lemma on_message_untracked:
  assumes "\<forall>r\<in>set l. msg_id r \<noteq> JStr i" "\<not> reliable_with_id d i"
  shows "\<forall>r\<in>set (snd (on_message d c l)). msg_id r \<noteq> JStr i"
proof (cases "isReliableMessage d")
  case False
  then show ?thesis using assms(1) by (simp add: on_message_def)
next
  case True
  then have "strict_eq (get_prop d ''RELIABLE'') (JNum 1)"
    by (simp add: isReliableMessage_def)
  then have "get_prop d ''RELIABLE'' = JNum 1"
    by (cases "get_prop d ''RELIABLE''") simp_all
  then have new: "get_prop d ''ID'' \<noteq> JStr i"
    using assms(2) by (simp add: reliable_with_id_def)
  have "\<forall>r\<in>set (deleteExpiredReliableMessages (t_prune c) l). msg_id r \<noteq> JStr i"
    using assms(1) forEach_splice_subset unfolding deleteExpiredReliableMessages_def by blast
  then show ?thesis
    using True new by (simp add: on_message_def Let_def)
qed

lemma receive_all_untracked:
  "\<forall>r\<in>set l. msg_id r \<noteq> JStr i \<Longrightarrow> \<forall>(d, c)\<in>set xs. \<not> reliable_with_id d i \<Longrightarrow>
   \<forall>r\<in>set (snd (receive_all xs l)). msg_id r \<noteq> JStr i"
proof (induction xs arbitrary: l)
  case Nil
  then show ?case by simp
next
  case (Cons e xs)
  obtain d c where e: "e = (d, c)" by (cases e)
  obtain out l1 where s: "on_message d c l = (out, l1)" by (cases "on_message d c l")
  have nd: "\<not> reliable_with_id d i" using Cons.prems(2) e by simp
  have "\<forall>r\<in>set l1. msg_id r \<noteq> JStr i"
    using on_message_untracked [OF Cons.prems(1) nd, of c] s by simp
  moreover have "\<forall>(d, c)\<in>set xs. \<not> reliable_with_id d i" using Cons.prems(2) by simp
  ultimately have "\<forall>r\<in>set (snd (receive_all xs l1)). msg_id r \<noteq> JStr i"
    by (rule Cons.IH)
  then show ?case by (simp add: e s split: prod.splits)
qed

lemma outcomes_for_skip:
  assumes "\<forall>(d, c)\<in>set xs. \<not> reliable_with_id d i"
  shows "outcomes_for i (xs @ ys) l = outcomes_for i ys (snd (receive_all xs l))"
proof -
  have none: "filter (\<lambda>(e, out). reliable_with_id (fst e) i) (zip xs outs) = []" for outs
  proof -
    have "\<not> reliable_with_id (fst (fst p)) i" if "p \<in> set (zip xs outs)" for p
    proof -
      obtain e out where p: "p = (e, out)" by (cases p)
      have "e \<in> set xs" using that unfolding p by (rule set_zip_leftD)
      then show ?thesis using assms unfolding p by (cases e) auto
    qed
    then show ?thesis by (auto simp: filter_empty_conv)
  qed
  have "zip (xs @ ys) (fst (receive_all xs l) @ fst (receive_all ys (snd (receive_all xs l))))
      = zip xs (fst (receive_all xs l)) @ zip ys (fst (receive_all ys (snd (receive_all xs l))))"
    by (simp add: receive_all_length)
  then show ?thesis
    by (simp add: outcomes_for_def receive_all_append none)
qed

text \<open>
  Claim C1, as amended. A channel starts with an empty ledger. Let \<open>i\<close> be an ID other
  than the string \<open>undefined\<close>, and take the first message with the RELIABLE flag and the
  ID \<open>i\<close> that the channel receives (before it: any messages that are not such). Whatever
  else is received afterwards, as long as every later receipt reads the clock before the
  first envelope's expiry (its \<open>expire\<close> reading plus 15000 ms), the callback is invoked
  for exactly one of the envelopes with that ID: the first one, with its MESSAGE payload;
  every later one is dropped.
\<close>

theorem reliable_same_id_delivered_once:
  assumes "i \<noteq> ''undefined''"
    and "\<forall>(d, c)\<in>set earlier. \<not> reliable_with_id d i"
    and "reliable_with_id d0 i"
    and "\<forall>(d, c)\<in>set later. t_prune c < t_expire c0 + expireTime"
  shows "outcomes_for i (earlier @ (d0, c0) # later) [] =
     Some (get_prop d0 ''MESSAGE'')
       # replicate (length (filter (\<lambda>e. reliable_with_id (fst e) i) later)) None"
proof -
  have "\<forall>r\<in>set ([] :: ledger). msg_id r \<noteq> JStr i" by simp
  then have u: "\<forall>r\<in>set (snd (receive_all earlier [])). msg_id r \<noteq> JStr i"
    using assms(2) by (rule receive_all_untracked)
  have "outcomes_for i (earlier @ (d0, c0) # later) []
      = outcomes_for i ((d0, c0) # later) (snd (receive_all earlier []))"
    using assms(2) by (rule outcomes_for_skip)
  also have "\<dots> = Some (get_prop d0 ''MESSAGE'')
       # replicate (length (filter (\<lambda>e. reliable_with_id (fst e) i) later)) None"
    using assms(1) u assms(3,4) by (rule untracked_id_delivered_once)
  finally show ?thesis .
qed

theorem reliable_same_id_delivered_once_witness:
  "outcomes_for ''m1''
     [(envelope (JStr ''x'') ''m0'', at_time 0),
      (envelope (JStr ''hi'') ''m1'', at_time 10),
      (envelope (JStr ''hi'') ''m1'', at_time 150),
      (JNum 5, at_time 200),
      (envelope (JStr ''hi'') ''m1'', at_time 15009)] []
   = [Some (JStr ''hi''), None, None]"
proof -
  let ?e = "envelope (JStr ''hi'') ''m1''"
  let ?earlier = "[(envelope (JStr ''x'') ''m0'', at_time 0)]"
  let ?later = "[(?e, at_time 150), (JNum 5, at_time 200), (?e, at_time 15009)]"
  have h1: "''m1'' \<noteq> ''undefined''" by simp
  have h2: "\<forall>(d, c)\<in>set ?earlier. \<not> reliable_with_id d ''m1''"
    by (simp add: reliable_with_id_def envelope_def)
  have h3: "reliable_with_id ?e ''m1''" by (simp add: reliable_with_id_def envelope_def)
  have h4: "\<forall>(d, c)\<in>set ?later. t_prune c < t_expire (at_time 10) + expireTime"
    by (simp add: at_time_def expireTime_def)
  have n: "length (filter (\<lambda>e. reliable_with_id (fst e) ''m1'') ?later) = 2"
    by (simp add: reliable_with_id_def envelope_def)
  show ?thesis
    using reliable_same_id_delivered_once [OF h1 h2 h3 h4]
    unfolding n by (simp add: envelope_def numeral_2_eq_2)
qed

text \<open>
  Claim C1 as stated covers every envelope with the RELIABLE flag set. Two envelopes with
  RELIABLE = 1 and the ID \<open>undefined\<close>, received one millisecond apart, are both handed
  to the callback, each as the whole envelope.
\<close>

theorem reliable_undefined_id_counterexample:
  "get_prop (envelope (JStr ''hi'') ''undefined'') ''RELIABLE'' = JNum 1
   \<and> fst (receive_all [(envelope (JStr ''hi'') ''undefined'', at_time 0),
                        (envelope (JStr ''hi'') ''undefined'', at_time 1)] [])
     = [Some (envelope (JStr ''hi'') ''undefined''), Some (envelope (JStr ''hi'') ''undefined'')]"
  by (simp add: envelope_def at_time_def on_message_def isReliableMessage_def)

text \<open>
  Claim C2 at a concrete run. Reliable envelopes \<open>idA\<close> and \<open>idB\<close> arrive at 0 ms and
  1 ms; \<open>idB\<close> arrives again at 20000 ms, after both records have expired (at 15000 and
  15001). The pruning pass removes the record of \<open>idA\<close> at index 0, which moves the record
  of \<open>idB\<close> to index 0, and then visits index 1, which no longer exists: the expired
  record of \<open>idB\<close> stays, and the new envelope is dropped instead of delivered.
\<close>

theorem expired_id_not_pruned:
  "deleteExpiredReliableMessages 20000
     [\<lparr> msg_id = JStr ''idA'', timestamp = 0, expire = 15000 \<rparr>,
      \<lparr> msg_id = JStr ''idB'', timestamp = 1, expire = 15001 \<rparr>]
   = [\<lparr> msg_id = JStr ''idB'', timestamp = 1, expire = 15001 \<rparr>]
   \<and> fst (receive_all [(envelope (JStr ''a'') ''idA'', at_time 0),
                        (envelope (JStr ''b'') ''idB'', at_time 1),
                        (envelope (JStr ''b'') ''idB'', at_time 20000)] [])
     = [Some (JStr ''a''), Some (JStr ''b''), None]"
  by code_simp

lemma receive_all_unreliable:
  "\<forall>(d, c)\<in>set evs. \<not> isReliableMessage d \<Longrightarrow>
   receive_all evs ledger = (map (\<lambda>(d, c). Some d) evs, ledger)"
  by (induction evs arbitrary: ledger) (auto simp: on_message_def)

text \<open>
  Claim C10. A message whose RELIABLE field is 1 and whose ID field is the string
  \<open>undefined\<close> is not classified as reliable: the ledger is neither consulted nor
  changed, and the callback receives the message itself (the whole envelope), on every
  receipt.
\<close>

theorem undefined_id_bypasses_deduplication:
  assumes "get_prop data ''RELIABLE'' = JNum 1"
    and "get_prop data ''ID'' = JStr ''undefined''"
  shows "\<not> isReliableMessage data
    \<and> on_message data clk ledger = (Some data, ledger)
    \<and> receive_all (map (\<lambda>c. (data, c)) clks) ledger = (replicate (length clks) (Some data), ledger)"
proof -
  have n: "\<not> isReliableMessage data"
    using assms by (simp add: isReliableMessage_def)
  have "receive_all (map (\<lambda>c. (data, c)) clks) ledger
      = (map (\<lambda>(d, c). Some d) (map (\<lambda>c. (data, c)) clks), ledger)"
    using n by (intro receive_all_unreliable) auto
  then show ?thesis
    using n by (simp add: on_message_def map_replicate_const comp_def)
qed

theorem undefined_id_bypasses_deduplication_witness:
  "receive_all [(envelope (JStr ''hi'') ''undefined'', at_time 0),
                (envelope (JStr ''hi'') ''undefined'', at_time 1)] []
     = ([Some (envelope (JStr ''hi'') ''undefined''), Some (envelope (JStr ''hi'') ''undefined'')], [])"
proof -
  let ?e = "envelope (JStr ''hi'') ''undefined''"
  have h1: "get_prop ?e ''RELIABLE'' = JNum 1" by (simp add: envelope_def)
  have h2: "get_prop ?e ''ID'' = JStr ''undefined''" by (simp add: envelope_def)
  have "receive_all (map (\<lambda>c. (?e, c)) [at_time 0, at_time 1]) []
      = (replicate (length [at_time 0, at_time 1]) (Some ?e), [])"
    using undefined_id_bypasses_deduplication [OF h1 h2] by blast
  then show ?thesis by (simp add: numeral_2_eq_2)
qed

section \<open>Properties of the candidate poller\<close>

lemma lead_digit_range: "0 < x \<Longrightarrow> 1 \<le> lead_digit x \<and> lead_digit x \<le> 9"
proof (induction x rule: lead_digit.induct)
  case (1 x)
  consider (small) "x < 1" | (big) "10 \<le> x" | (unit) "1 \<le> x" "x < 10" by linarith
  then show ?case
  proof cases
    case small
    then have "lead_digit x = lead_digit (10 * x)"
      using "1.prems" by (simp add: lead_digit.simps [of x])
    moreover have "1 \<le> lead_digit (10 * x) \<and> lead_digit (10 * x) \<le> 9"
      using small "1.prems" by (intro "1.IH"(1)) auto
    ultimately show ?thesis by simp
  next
    case big
    then have "lead_digit x = lead_digit (x / 10)"
      using "1.prems" by (simp add: lead_digit.simps [of x])
    moreover have "1 \<le> lead_digit (x / 10) \<and> lead_digit (x / 10) \<le> 9"
      using big "1.prems" by (intro "1.IH"(2)) auto
    ultimately show ?thesis by simp
  next
    case unit
    then have "lead_digit x = \<lfloor>x\<rfloor>"
      using "1.prems" by (simp add: lead_digit.simps [of x])
    moreover have "1 \<le> \<lfloor>x\<rfloor>" "\<lfloor>x\<rfloor> \<le> 9" using unit by linarith+
    ultimately show ?thesis by simp
  qed
qed

lemma jitter_range:
  assumes "0 \<le> x" "x < 20"
  shows "0 \<le> parseInt_toString x \<and> parseInt_toString x \<le> 19"
proof (cases "x = 0")
  case True
  then show ?thesis by (simp add: parseInt_toString_def)
next
  case False
  then have pos: "0 < x" using assms by simp
  show ?thesis
  proof (cases "x < 1 / 10 ^ 6")
    case True
    then have "parseInt_toString x = lead_digit x"
      using pos by (simp add: parseInt_toString_def Let_def)
    then show ?thesis using lead_digit_range [OF pos] by simp
  next
    case False
    have "x < 10 ^ 21" using assms(2) by simp
    then have "parseInt_toString x = \<lfloor>x\<rfloor>"
      using pos False by (simp add: parseInt_toString_def Let_def)
    moreover have "0 \<le> \<lfloor>x\<rfloor>" "\<lfloor>x\<rfloor> \<le> 19" using assms by linarith+
    ultimately show ?thesis by simp
  qed
qed

lemma base_delay:
  assumes "i < 10"
  shows "parseInt_toString (50 * (9 / 5) ^ i) = \<lfloor>(50::rat) * (9 / 5) ^ i\<rfloor>"
proof -
  define p :: rat where "p = (9 / 5) ^ i"
  have lo: "1 \<le> p" unfolding p_def by (rule one_le_power) simp
  have "p \<le> 2 ^ i" unfolding p_def by (rule power_mono) simp_all
  also have "\<dots> \<le> 2 ^ 10" using assms by (intro power_increasing) simp_all
  finally have hi: "p \<le> 1024" by simp
  have "50 * p \<noteq> 0" using lo by simp
  moreover have "\<not> 50 * p < 1 / 10 ^ 6" using lo by simp
  moreover have "\<not> 10 ^ 21 \<le> 50 * p" using hi by simp
  moreover have "\<not> 50 * p < 0" using lo by simp
  moreover have "\<bar>50 * p\<bar> = 50 * p" using lo by simp
  ultimately have "parseInt_toString (50 * p) = \<lfloor>50 * p\<rfloor>"
    unfolding parseInt_toString_def Let_def by presburger
  then show ?thesis unfolding p_def .
qed

text \<open>
  Claim C4, as amended. Whatever \<^verbatim>\<open>Math.random()\<close> returns (numbers in \<open>[0, 1)\<close>), the
  poller of \<^verbatim>\<open>connect\<close> and that of \<^verbatim>\<open>reconnect\<close> set the same 10 timers, each to fetch the
  additional candidates, and the delay of attempt \<open>i\<close> is an integer with
  \<open>floor (50 * 1.8^i) \<le> delay \<le> floor (50 * 1.8^i) + 19\<close>, hence \<open>delay < 50 * 1.8^i + 20\<close>.
\<close>

theorem backoff_delay_bounds:
  assumes "\<forall>k. 0 \<le> random k \<and> random k < 1"
  shows "length (connect_candidate_poller random host cid) = 10
    \<and> reconnect_candidate_poller random host cid = connect_candidate_poller random host cid
    \<and> (\<forall>i<10. snd (connect_candidate_poller random host cid ! i) = FetchAdditionalCandidates host cid
          \<and> \<lfloor>(50::rat) * (9 / 5) ^ i\<rfloor> \<le> fst (connect_candidate_poller random host cid ! i)
          \<and> fst (connect_candidate_poller random host cid ! i) \<le> \<lfloor>(50::rat) * (9 / 5) ^ i\<rfloor> + 19
          \<and> (of_int (fst (connect_candidate_poller random host cid ! i)) :: rat) < 50 * (9 / 5) ^ i + 20)"
proof -
  have len: "length (connect_candidate_poller random host cid) = 10"
    by (simp add: connect_candidate_poller_def schedule_candidate_polls_def showBackOffIntervals_def)
  have each: "snd (connect_candidate_poller random host cid ! i) = FetchAdditionalCandidates host cid
          \<and> \<lfloor>(50::rat) * (9 / 5) ^ i\<rfloor> \<le> fst (connect_candidate_poller random host cid ! i)
          \<and> fst (connect_candidate_poller random host cid ! i) \<le> \<lfloor>(50::rat) * (9 / 5) ^ i\<rfloor> + 19
          \<and> (of_int (fst (connect_candidate_poller random host cid ! i)) :: rat) < 50 * (9 / 5) ^ i + 20"
    if i: "i < 10" for i
  proof -
    have r: "0 \<le> random i * 20" "random i * 20 < 20" using assms by simp_all
    have j: "0 \<le> parseInt_toString (random i * 20)" "parseInt_toString (random i * 20) \<le> 19"
      using jitter_range [OF r] by simp_all
    have d: "connect_candidate_poller random host cid ! i
        = (\<lfloor>(50::rat) * (9 / 5) ^ i\<rfloor> + parseInt_toString (random i * 20),
           FetchAdditionalCandidates host cid)"
      using i by (simp add: connect_candidate_poller_def schedule_candidate_polls_def
          showBackOffIntervals_def base_delay del: upt_Suc)
    let ?d = "connect_candidate_poller random host cid ! i"
    have c1: "snd ?d = FetchAdditionalCandidates host cid" unfolding d by simp
    have c2: "\<lfloor>(50::rat) * (9 / 5) ^ i\<rfloor> \<le> fst ?d" unfolding d using j(1) by simp
    have c3: "fst ?d \<le> \<lfloor>(50::rat) * (9 / 5) ^ i\<rfloor> + 19" unfolding d using j(2) by simp
    have f: "(of_int \<lfloor>(50::rat) * (9 / 5) ^ i\<rfloor> :: rat) \<le> 50 * (9 / 5) ^ i"
      by (rule of_int_floor_le)
    have "(of_int (fst ?d) :: rat) \<le> of_int (\<lfloor>(50::rat) * (9 / 5) ^ i\<rfloor> + 19)"
      using c3 by (simp only: of_int_le_iff)
    then have g: "(of_int (fst ?d) :: rat) \<le> of_int \<lfloor>(50::rat) * (9 / 5) ^ i\<rfloor> + 19"
      by simp
    have c4: "(of_int (fst ?d) :: rat) < 50 * (9 / 5) ^ i + 20"
      using f g by linarith
    show ?thesis using c1 c2 c3 c4 by blast
  qed
  show ?thesis
    using len each by (simp add: reconnect_candidate_poller_def connect_candidate_poller_def)
qed

theorem backoff_delay_bounds_witness:
  "map fst (connect_candidate_poller (\<lambda>k. 1 / 2) ''h'' ''c'')
     = [60, 100, 172, 301, 534, 954, 1710, 3071, 5519, 9927]
   \<and> \<lfloor>(50::rat) * (9 / 5) ^ 3\<rfloor> \<le> fst (connect_candidate_poller (\<lambda>k. 1 / 2) ''h'' ''c'' ! 3)
   \<and> (of_int (fst (connect_candidate_poller (\<lambda>k. 1 / 2) ''h'' ''c'' ! 3)) :: rat) < 50 * (9 / 5) ^ 3 + 20"
proof -
  have h: "\<forall>k::nat. (0::rat) \<le> 1 / 2 \<and> (1 / 2 :: rat) < 1" by simp
  have v: "map fst (connect_candidate_poller (\<lambda>k. 1 / 2) ''h'' ''c'')
     = [60, 100, 172, 301, 534, 954, 1710, 3071, 5519, 9927]"
    by code_simp
  show ?thesis
    using backoff_delay_bounds [OF h, of "''h''" "''c''"] v by simp
qed

text \<open>
  Claim C4 as stated has the lower bound \<open>50 * 1.8^i \<le> delay\<close>. When \<^verbatim>\<open>Math.random()\<close>
  returns 0.01 (a jitter of \<open>parseInt("0.2") = 0\<close>), attempt 3 is delayed by 291 ms, and
  \<open>50 * 1.8^3 = 291.6\<close>.
\<close>

theorem backoff_lower_bound_counterexample:
  "fst (connect_candidate_poller (\<lambda>k. 1 / 100) ''h'' ''c'' ! 3) = 291
   \<and> \<not> ((50::rat) * (9 / 5) ^ 3
          \<le> of_int (fst (connect_candidate_poller (\<lambda>k. 1 / 100) ''h'' ''c'' ! 3)))"
proof -
  have "fst (connect_candidate_poller (\<lambda>k. 1 / 100) ''h'' ''c'' ! 3) = 291" by code_simp
  then show ?thesis by (simp add: power3_eq_cube)
qed

section \<open>Properties of the wait for ICE candidates\<close>






section \<open>Properties of the server connection\<close>

text \<open>
  Claim C5 at concrete options. The constructor passes \<^verbatim>\<open>enableVideo\<close> for both
  arguments of \<^verbatim>\<open>setupStreams\<close>. With \<^verbatim>\<open>{ enableAudio: true }\<close> and video off, creating
  connection A and then B gives exactly what no media at all gives: B has no audio
  transceiver, no entry in its \<^verbatim>\<open>audioMap\<close> and no transceiver at all. With
  \<^verbatim>\<open>{ enableAudio: false, enableVideo: true }\<close> the audio transceiver is created all the same.
\<close>

theorem audio_only_creates_no_audio_route:
  "run_ops (no_media\<lparr> enableAudio := Some True \<rparr>) [Create ''A'' ''u'', Create ''B'' ''u''] []
     = (None,
        [(''A'', fst (snd (WebRTCConnection ''A'' no_media [] ''u''))),
         (''B'', fst (snd (WebRTCConnection ''B'' no_media [] ''u'')))])
   \<and> audio (fst (snd (WebRTCConnection ''B'' no_media [] ''u''))) = None
   \<and> audioMap (fst (snd (WebRTCConnection ''B'' no_media [] ''u''))) = []
   \<and> transceivers (peerConnection (fst (snd (WebRTCConnection ''B'' no_media [] ''u'')))) = []
   \<and> audio (fst (snd (WebRTCConnection ''B''
        (no_media\<lparr> enableAudio := Some False, enableVideo := Some True \<rparr>) [] ''u'')))
      = Some \<lparr> tr_index = 1, tr_kind = AudioKind, sender_track = None,
               receiver_track = ReceiverTrack ''B'' 1 \<rparr>"
  by (simp add: WebRTCConnection_def no_media_def setupStreams_def setup_kind_def
      addTransceiver_def registry_create_def Let_def)

text \<open>
  Claim C8. \<^verbatim>\<open>reconnect()\<close> leaves the connection's own audio and video transceivers
  and its \<^verbatim>\<open>audioMap\<close> and \<^verbatim>\<open>videoMap\<close> as they were, whether it succeeds or fails, and
  so does the \<^verbatim>\<open>applyAnswer\<close> that completes the round. It never adds a transceiver to
  the peer connection: after a round that succeeds the peer connection has exactly the
  transceivers it had, and after one that fails, \<^verbatim>\<open>close()\<close> has left it none. The round
  succeeds exactly when the transport creates and installs an offer, and then that new
  offer is the local description.
\<close>

theorem renegotiation_keeps_media:
  "audio (snd (reconnect env c)) = audio c
   \<and> video (snd (reconnect env c)) = video c
   \<and> audioMap (snd (reconnect env c)) = audioMap c
   \<and> videoMap (snd (reconnect env c)) = videoMap c
   \<and> transceivers (peerConnection (snd (reconnect env c)))
       = (if fst (reconnect env c) = None then transceivers (peerConnection c) else [])
   \<and> (fst (reconnect env c) = None \<longrightarrow>
         (\<exists>offer. createOffer_result env = Inr offer
            \<and> localDescription (peerConnection (snd (reconnect env c))) = Some offer))
   \<and> (createOffer_result env = Inr offer \<and> setLocalDescription_result env = None \<longrightarrow>
         fst (reconnect env c) = None
         \<and> localDescription (peerConnection (snd (reconnect env c))) = Some offer)
   \<and> audio (snd (applyAnswer answer (snd (reconnect env c)))) = audio c
   \<and> video (snd (applyAnswer answer (snd (reconnect env c)))) = video c
   \<and> audioMap (snd (applyAnswer answer (snd (reconnect env c)))) = audioMap c
   \<and> videoMap (snd (applyAnswer answer (snd (reconnect env c)))) = videoMap c
   \<and> transceivers (peerConnection (snd (applyAnswer answer (snd (reconnect env c)))))
       = (if fst (reconnect env c) = None then transceivers (peerConnection c) else [])"
  by (auto simp: reconnect_def doOffer_def applyAnswer_def WebRTCConnection_close_def
      Connection_close_def split: sum.splits option.splits)

theorem renegotiation_keeps_media_witness:
  "fst (reconnect good_offer_env sample_connection) = None
   \<and> localDescription (peerConnection (snd (reconnect good_offer_env sample_connection)))
       = Some sample_offer
   \<and> video (snd (reconnect good_offer_env sample_connection)) = video sample_connection
   \<and> video sample_connection
       = Some \<lparr> tr_index = 0, tr_kind = VideoKind, sender_track = None,
                 receiver_track = ReceiverTrack sample_id 0 \<rparr>
   \<and> transceivers (peerConnection (snd (reconnect good_offer_env sample_connection)))
       = transceivers (peerConnection sample_connection)
   \<and> length (transceivers (peerConnection sample_connection)) = 2
   \<and> fst (reconnect bad_offer_env sample_connection) = Some InvalidStateError
   \<and> video (snd (reconnect bad_offer_env sample_connection)) = video sample_connection
   \<and> transceivers (peerConnection (snd (reconnect bad_offer_env sample_connection))) = []"
proof -
  have h: "createOffer_result good_offer_env = Inr sample_offer
      \<and> setLocalDescription_result good_offer_env = None"
    by (simp add: good_offer_env_def)
  have v: "video sample_connection
       = Some \<lparr> tr_index = 0, tr_kind = VideoKind, sender_track = None,
                 receiver_track = ReceiverTrack sample_id 0 \<rparr>"
    "length (transceivers (peerConnection sample_connection)) = 2"
    by (simp_all add: sample_connection_def WebRTCConnection_def no_media_def setupStreams_def
        setup_kind_def addTransceiver_def Let_def)
  have good: "fst (reconnect good_offer_env sample_connection) = None
      \<and> localDescription (peerConnection (snd (reconnect good_offer_env sample_connection)))
          = Some sample_offer"
    using renegotiation_keeps_media [of good_offer_env sample_connection sample_offer] h
    by blast
  have bad: "fst (reconnect bad_offer_env sample_connection) = Some InvalidStateError"
    by (simp add: reconnect_def doOffer_def bad_offer_env_def)
  show ?thesis
    using renegotiation_keeps_media [of good_offer_env sample_connection sample_offer]
      renegotiation_keeps_media [of bad_offer_env sample_connection sample_offer]
      good bad v
    by simp
qed

section \<open>Properties of the HTTP signaling endpoint\<close>

lemma match_here_lits: "match_here (map Lit s @ re) (s @ rest) = match_here re rest"
  by (induction s) auto

lemma match_here_alnum_run:
  "list_all alnum w \<Longrightarrow> w \<noteq> [] \<Longrightarrow> match_here re rest \<Longrightarrow>
   match_here (AlnumPlus # re) (w @ rest)"
proof (induction w)
  case Nil
  then show ?case by simp
next
  case (Cons x w)
  then show ?case by (cases w) auto
qed

lemma connection_path_matches:
  assumes "list_all alnum cid" "cid \<noteq> []"
  shows "regex_test (connection_path name) (''/.wrtc/v1/connections/'' @ cid @ ''/'' @ name)"
proof -
  have "match_here (map Lit (''/'' @ name) @ []) ((''/'' @ name) @ [])"
    unfolding match_here_lits by simp
  then have "match_here (map Lit (''/'' @ name)) (''/'' @ name)" by simp
  then have "match_here (AlnumPlus # map Lit (''/'' @ name)) (cid @ ''/'' @ name)"
    using assms by (intro match_here_alnum_run)
  then have "match_here (map Lit ''wrtc/v1/connections/'' @ AlnumPlus # map Lit (''/'' @ name))
      (''wrtc/v1/connections/'' @ cid @ ''/'' @ name)"
    unfolding match_here_lits .
  then have "match_here (connection_path name) (''.wrtc/v1/connections/'' @ cid @ ''/'' @ name)"
    by (simp add: connection_path_def line_terminator_def)
  then show ?thesis by simp
qed

lemma root_matches: "regex_test rootRegEx (''/.wrtc/v1'' @ rest)"
  by (simp add: rootRegEx_def line_terminator_def)

lemma match_ids_short: "length s < 24 \<Longrightarrow> match_ids s = []"
  by (simp add: match_ids.simps [of s])

lemma match_ids_skip:
  assumes "24 \<le> length (x # s)" "\<not> list_all alnum (take 24 (x # s))"
  shows "match_ids (x # s) = match_ids s"
proof -
  have a: "\<not> length (x # s) < 24" using assms(1) by simp
  show ?thesis
    by (subst match_ids.simps) (simp only: a assms(2) if_False list.sel)
qed

lemma match_ids_take:
  "length w = 24 \<Longrightarrow> list_all alnum w \<Longrightarrow> match_ids (w @ rest) = w # match_ids rest"
  by (simp add: match_ids.simps [of "w @ rest"])

lemma match_ids_connection_path:
  assumes "length cid = 24" "list_all alnum cid" "length name < 23"
  shows "match_ids (''/.wrtc/v1/connections/'' @ cid @ ''/'' @ name) = [cid]"
proof -
  have "match_ids (''/.wrtc/v1/connections/'' @ cid @ ''/'' @ name) = match_ids (cid @ ''/'' @ name)"
    using assms(1) by (simp add: match_ids_skip alnum_def)
  also have "\<dots> = cid # match_ids (''/'' @ name)"
    using assms(1,2) by (rule match_ids_take)
  also have "match_ids (''/'' @ name) = []"
    using assms(3) by (intro match_ids_short) simp
  finally show ?thesis .
qed

lemma poll_response:
  assumes "length cid = 24" and "list_all alnum cid"
    and "getConnection cid connections = Some c"
    and "req_pathname req = Some (''/.wrtc/v1/connections/'' @ cid @ ''/additional-candidates'')"
    and "req_method req = Some ''GET''"
    and "parsed_body req = Some b"
  shows "HttpServer createConnection env req connections
     = (write_end (CandidatesJson (additionalCandidates c))
          (new_response\<lparr> res_headers :=
             cors_headers env @ [(''Content-Type'', ''application/json'')] \<rparr>),
        AList.update cid (c\<lparr> additionalCandidates := [] \<rparr>) connections)"
proof -
  let ?p = "''/.wrtc/v1/connections/'' @ cid @ ''/additional-candidates''"
  have ne: "cid \<noteq> []" using assms(1) by auto
  have r: "regex_test rootRegEx ?p"
    using root_matches [of "''/connections/'' @ cid @ ''/additional-candidates''"] by simp
  have p3: "regex_test (connection_path ''additional-candidates'') ?p"
    using connection_path_matches [OF assms(2) ne, of "''additional-candidates''"] by simp
  have ids: "match_ids ?p = [cid]"
    using match_ids_connection_path [OF assms(1,2), of "''additional-candidates''"] by simp
  have e: "additional_candidates_endpoint ?p res connections
      = (write_end (CandidatesJson (additionalCandidates c)) res,
         AList.update cid (c\<lparr> additionalCandidates := [] \<rparr>) connections)" for res
    unfolding additional_candidates_endpoint_def ids using assms(3) by (simp add: Let_def)
  show ?thesis
    unfolding HttpServer_def assms(4,5,6) option.case Let_def
    using r p3 by (simp add: e del: regex_test.simps append.simps)
qed

text \<open>
  Claim C7. For a connection registered under an id of 24 letters and digits (the ids
  the endpoint itself recognises), and a body that \<^verbatim>\<open>ParseBody\<close> accepts, a
  \<^verbatim>\<open>GET /.wrtc/v1/connections/{id}/additional-candidates\<close> is answered with status 200
  and exactly the queued candidates, in order; the queue is emptied, the client adds
  those candidates to its peer connection, and the next poll of the registry so left is
  answered with the empty array.
\<close>

theorem additional_candidates_drained:
  assumes "length cid = 24" and "list_all alnum cid"
    and "getConnection cid connections = Some c"
    and "req_pathname req = Some (''/.wrtc/v1/connections/'' @ cid @ ''/additional-candidates'')"
    and "req_method req = Some ''GET''"
    and "parsed_body req = Some b"
    and "HttpServer createConnection env req connections = (res, connections')"
    and "HttpServer createConnection' env' req connections' = (res', connections'')"
  shows "written res = [CandidatesJson (additionalCandidates c)]
    \<and> ended res \<and> statusCode res = 200
    \<and> connections' = AList.update cid (c\<lparr> additionalCandidates := [] \<rparr>) connections
    \<and> fetchAdditionalCandidates res installed = installed @ additionalCandidates c
    \<and> written res' = [CandidatesJson []]
    \<and> ended res' \<and> statusCode res' = 200
    \<and> fetchAdditionalCandidates res' installed' = installed'"
proof -
  have first: "(res, connections')
     = (write_end (CandidatesJson (additionalCandidates c))
          (new_response\<lparr> res_headers :=
             cors_headers env @ [(''Content-Type'', ''application/json'')] \<rparr>),
        AList.update cid (c\<lparr> additionalCandidates := [] \<rparr>) connections)"
    using poll_response [OF assms(1-6)] assms(7) by simp
  have g: "getConnection cid connections' = Some (c\<lparr> additionalCandidates := [] \<rparr>)"
    using first by (simp add: getConnection_def update_conv')
  have second: "(res', connections'')
     = (write_end (CandidatesJson (additionalCandidates (c\<lparr> additionalCandidates := [] \<rparr>)))
          (new_response\<lparr> res_headers :=
             cors_headers env' @ [(''Content-Type'', ''application/json'')] \<rparr>),
        AList.update cid (c\<lparr> additionalCandidates := [] \<rparr>\<lparr> additionalCandidates := [] \<rparr>) connections')"
    using poll_response [OF assms(1,2) g assms(4-6)] assms(8) by simp
  show ?thesis
    using first second
    by (simp add: write_end_def new_response_def fetchAdditionalCandidates_def)
qed

theorem additional_candidates_drained_witness:
  "written (fst (HttpServer failing_create quiet_env
        \<lparr> req_pathname = Some (''/.wrtc/v1/connections/'' @ sample_id @ ''/additional-candidates''),
          req_method = Some ''GET'', req_authorization = None, parsed_body = Some [] \<rparr>
        [(sample_id, sample_connection\<lparr> additionalCandidates := [''c1'', ''c2''] \<rparr>)]))
     = [CandidatesJson [''c1'', ''c2'']]
   \<and> written (fst (HttpServer failing_create quiet_env
        \<lparr> req_pathname = Some (''/.wrtc/v1/connections/'' @ sample_id @ ''/additional-candidates''),
          req_method = Some ''GET'', req_authorization = None, parsed_body = Some [] \<rparr>
        (snd (HttpServer failing_create quiet_env
        \<lparr> req_pathname = Some (''/.wrtc/v1/connections/'' @ sample_id @ ''/additional-candidates''),
          req_method = Some ''GET'', req_authorization = None, parsed_body = Some [] \<rparr>
        [(sample_id, sample_connection\<lparr> additionalCandidates := [''c1'', ''c2''] \<rparr>)]))))
     = [CandidatesJson []]"
proof -
  let ?req = "\<lparr> req_pathname = Some (''/.wrtc/v1/connections/'' @ sample_id @ ''/additional-candidates''),
          req_method = Some ''GET'', req_authorization = None, parsed_body = Some [] \<rparr>"
  let ?c = "sample_connection\<lparr> additionalCandidates := [''c1'', ''c2''] \<rparr>"
  let ?reg = "[(sample_id, ?c)]"
  have h1: "length sample_id = 24" by (simp add: sample_id_def)
  have h2: "list_all alnum sample_id" by (simp add: sample_id_def alnum_def)
  have h3: "getConnection sample_id ?reg = Some ?c" by (simp add: getConnection_def)
  have h4: "req_pathname ?req
      = Some (''/.wrtc/v1/connections/'' @ sample_id @ ''/additional-candidates'')" by simp
  have h5: "req_method ?req = Some ''GET''" by simp
  have h6: "parsed_body ?req = Some []" by simp
  obtain res connections' where r1: "HttpServer failing_create quiet_env ?req ?reg = (res, connections')"
    by (cases "HttpServer failing_create quiet_env ?req ?reg")
  obtain res' connections'' where
    r2: "HttpServer failing_create quiet_env ?req connections' = (res', connections'')"
    by (cases "HttpServer failing_create quiet_env ?req connections'")
  have "written res = [CandidatesJson (additionalCandidates ?c)]
      \<and> written res' = [CandidatesJson []]"
    using additional_candidates_drained [OF h1 h2 h3 h4 h5 h6 r1 r2] by blast
  then show ?thesis unfolding r1 snd_conv fst_conv r2 by simp
qed

text \<open>
  Claim C9 at a concrete request. \<^verbatim>\<open>POST /.wrtc/v1/connections/{id}/close\<close> for a live
  connection closes it (the registry is empty afterwards), but the response is never
  ended: no status is written, no body, and \<^verbatim>\<open>res.end()\<close> is not called.
\<close>

theorem close_request_never_answered:
  "getConnection sample_id sample_registry \<noteq> None
   \<and> HttpServer failing_create quiet_env
        \<lparr> req_pathname = Some (''/.wrtc/v1/connections/'' @ sample_id @ ''/close''),
          req_method = Some ''POST'', req_authorization = None, parsed_body = Some [] \<rparr>
        sample_registry
     = (\<lparr> statusCode = 200, res_headers = [(''Content-Type'', ''application/json'')],
          written = [], ended = False, handed_on = False \<rparr>, [])"
  by code_simp

section \<open>Properties of the routing tables\<close>

lemma same_but_routes_refl: "same_but_routes k c c"
  by (simp add: same_but_routes_def split: media_kind.splits)

lemma same_but_routes_trans:
  "same_but_routes k a b \<Longrightarrow> same_but_routes k b c \<Longrightarrow> same_but_routes k a c"
  by (simp add: same_but_routes_def split: media_kind.splits)

lemma route_pair_ok:
  assumes "\<not> pc_closed (peerConnection me)" "\<not> pc_closed (peerConnection their)"
    and "own_transceiver k me \<noteq> None" "own_transceiver k their \<noteq> None"
  shows "\<exists>me' their'. route_pair k me their = (None, me', their')
     \<and> same_but_routes k me me' \<and> same_but_routes k their their'
     \<and> route_keys k me' = insert (conn_id their) (route_keys k me)
     \<and> route_keys k their' = insert (conn_id me) (route_keys k their)"
proof (cases k)
  case AudioKind
  then show ?thesis
    using assms
    by (auto simp: route_pair_def addTransceiver_def replaceTrack_def Let_def
        same_but_routes_def route_keys_def dom_update)
next
  case VideoKind
  then show ?thesis
    using assms
    by (auto simp: route_pair_def addTransceiver_def replaceTrack_def Let_def
        same_but_routes_def route_keys_def dom_update)
qed

lemma route_all_ok:
  assumes "\<not> pc_closed (peerConnection me)" "own_transceiver k me \<noteq> None"
    and "\<forall>(key, c)\<in>set connections. \<not> pc_closed (peerConnection c) \<and> own_transceiver k c \<noteq> None"
  shows "\<exists>me' connections'. route_all k me connections = (None, me', connections')
     \<and> same_but_routes k me me'
     \<and> route_keys k me' = route_keys k me \<union> (conn_id \<circ> snd) ` set connections
     \<and> list_all2 (\<lambda>(key, c) (key', c'). key' = key \<and> same_but_routes k c c'
            \<and> route_keys k c' = insert (conn_id me) (route_keys k c)) connections connections'"
  using assms
proof (induction connections arbitrary: me)
  case Nil
  then show ?case by (simp add: same_but_routes_refl)
next
  case (Cons e connections)
  obtain key their where e: "e = (key, their)" by (cases e)
  have their: "\<not> pc_closed (peerConnection their)" "own_transceiver k their \<noteq> None"
    using Cons.prems(3) e by auto
  obtain me1 their1 where p: "route_pair k me their = (None, me1, their1)"
    and m1: "same_but_routes k me me1" and t1: "same_but_routes k their their1"
    and km1: "route_keys k me1 = insert (conn_id their) (route_keys k me)"
    and kt1: "route_keys k their1 = insert (conn_id me) (route_keys k their)"
    using route_pair_ok [OF Cons.prems(1) their(1) Cons.prems(2) their(2)] by blast
  have me1: "\<not> pc_closed (peerConnection me1)" "own_transceiver k me1 \<noteq> None"
    using m1 Cons.prems(1,2) by (cases k; simp add: same_but_routes_def)+
  have rest: "\<forall>(key, c)\<in>set connections.
      \<not> pc_closed (peerConnection c) \<and> own_transceiver k c \<noteq> None"
    using Cons.prems(3) by simp
  obtain me2 connections2 where r: "route_all k me1 connections = (None, me2, connections2)"
    and m2: "same_but_routes k me1 me2"
    and km2: "route_keys k me2 = route_keys k me1 \<union> (conn_id \<circ> snd) ` set connections"
    and l2: "list_all2 (\<lambda>(key, c) (key', c'). key' = key \<and> same_but_routes k c c'
            \<and> route_keys k c' = insert (conn_id me1) (route_keys k c)) connections connections2"
    using Cons.IH [OF me1 rest] by blast
  have id1: "conn_id me1 = conn_id me" using m1 by (simp add: same_but_routes_def)
  have "route_all k me (e # connections) = (None, me2, (key, their1) # connections2)"
    by (simp add: e p r)
  moreover have "same_but_routes k me me2" using m1 m2 by (rule same_but_routes_trans)
  moreover have "route_keys k me2 = route_keys k me \<union> (conn_id \<circ> snd) ` set (e # connections)"
    using km1 km2 by (auto simp: e)
  moreover have "list_all2 (\<lambda>(key, c) (key', c'). key' = key \<and> same_but_routes k c c'
            \<and> route_keys k c' = insert (conn_id me) (route_keys k c))
            (e # connections) ((key, their1) # connections2)"
    using l2 t1 kt1 by (simp add: e id1)
  ultimately show ?case by blast
qed

lemma list_all2_keyed:
  "list_all2 (\<lambda>(key, c) (key', c'). key' = key \<and> R c c') xs ys \<Longrightarrow>
   map fst ys = map fst xs \<and> (\<forall>(key, c')\<in>set ys. \<exists>c. (key, c) \<in> set xs \<and> R c c')"
  by (induction xs ys rule: list_all2_induct) auto

lemma setup_kind_ok:
  assumes "\<not> pc_closed (peerConnection me)"
    and "\<forall>(key, c)\<in>set connections. \<not> pc_closed (peerConnection c) \<and> own_transceiver k c \<noteq> None"
  shows "\<exists>me' connections'. setup_kind k (me, connections) = (None, me', connections')
     \<and> conn_id me' = conn_id me \<and> \<not> pc_closed (peerConnection me')
     \<and> own_transceiver k me' \<noteq> None
     \<and> (case k of VideoKind \<Rightarrow> audio me' = audio me \<and> audioMap me' = audioMap me
                  | AudioKind \<Rightarrow> video me' = video me \<and> videoMap me' = videoMap me)
     \<and> route_keys k me' = route_keys k me \<union> (conn_id \<circ> snd) ` set connections
     \<and> map fst connections' = map fst connections
     \<and> (\<forall>(key, c')\<in>set connections'. \<exists>c. (key, c) \<in> set connections
            \<and> same_but_routes k c c'
            \<and> route_keys k c' = insert (conn_id me) (route_keys k c))"
proof -
  define me1 where "me1 =
    (case own_transceiver k me of
       Some t \<Rightarrow> me
     | None \<Rightarrow> (case addTransceiver k (peerConnection me) of
                  Inr (t, pc) \<Rightarrow> set_own_transceiver k t (me\<lparr> peerConnection := pc \<rparr>)
                | Inl e \<Rightarrow> me))"
  have s: "setup_kind k (me, connections) = route_all k me1 connections"
    using assms(1)
    by (auto simp: setup_kind_def me1_def addTransceiver_def Let_def split: option.splits)
  have a: "\<not> pc_closed (peerConnection me1)" "own_transceiver k me1 \<noteq> None"
    "conn_id me1 = conn_id me" "route_keys k me1 = route_keys k me"
    "case k of VideoKind \<Rightarrow> audio me1 = audio me \<and> audioMap me1 = audioMap me
             | AudioKind \<Rightarrow> video me1 = video me \<and> videoMap me1 = videoMap me"
    using assms(1)
    by (cases k; auto simp: me1_def addTransceiver_def Let_def route_keys_def
          split: option.splits)+
  obtain me' connections' where r: "route_all k me1 connections = (None, me', connections')"
    and m: "same_but_routes k me1 me'"
    and km: "route_keys k me' = route_keys k me1 \<union> (conn_id \<circ> snd) ` set connections"
    and l: "list_all2 (\<lambda>(key, c) (key', c'). key' = key \<and> (same_but_routes k c c'
            \<and> route_keys k c' = insert (conn_id me1) (route_keys k c))) connections connections'"
    using route_all_ok [OF a(1,2) assms(2)] by blast
  have "conn_id me' = conn_id me" "\<not> pc_closed (peerConnection me')"
    "own_transceiver k me' \<noteq> None"
    "case k of VideoKind \<Rightarrow> audio me' = audio me \<and> audioMap me' = audioMap me
             | AudioKind \<Rightarrow> video me' = video me \<and> videoMap me' = videoMap me"
    using m a by (cases k; simp add: same_but_routes_def)+
  then show ?thesis
    using s r km a(3,4) list_all2_keyed [OF l] by auto
qed

lemma keys_delete: "fst ` set (AList.delete x al) = fst ` set al - {x}"
proof -
  have "set (map fst (AList.delete x al)) = set (map fst al) - {x}"
    by (simp add: delete_keys)
  then show ?thesis by simp
qed

lemma update_fresh: "k \<notin> fst ` set al \<Longrightarrow> AList.update k v al = al @ [(k, v)]"
  by (induction al) auto

lemma WebRTCConnection_start:
  assumes "enableVideo serverOptions = Some True"
  shows "\<exists>me0. WebRTCConnection cid serverOptions connections ud
        = setupStreams True True (me0, connections)
     \<and> conn_id me0 = cid \<and> \<not> pc_closed (peerConnection me0)
     \<and> audio me0 = None \<and> video me0 = None \<and> audioMap me0 = [] \<and> videoMap me0 = []"
  unfolding WebRTCConnection_def Let_def assms option.case
  by (rule exI, rule conjI, rule refl) simp

lemma setup_video_ok:
  assumes "\<not> pc_closed (peerConnection me)"
    and "\<forall>(key, c)\<in>set connections. \<not> pc_closed (peerConnection c) \<and> video c \<noteq> None"
  shows "\<exists>me' connections'. setup_kind VideoKind (me, connections) = (None, me', connections')
     \<and> conn_id me' = conn_id me \<and> \<not> pc_closed (peerConnection me')
     \<and> video me' \<noteq> None \<and> audio me' = audio me \<and> audioMap me' = audioMap me
     \<and> fst ` set (videoMap me') = fst ` set (videoMap me) \<union> (conn_id \<circ> snd) ` set connections
     \<and> map fst connections' = map fst connections
     \<and> (\<forall>(key, c')\<in>set connections'. \<exists>c. (key, c) \<in> set connections
            \<and> conn_id c' = conn_id c
            \<and> pc_closed (peerConnection c') = pc_closed (peerConnection c)
            \<and> video c' = video c \<and> audio c' = audio c \<and> audioMap c' = audioMap c
            \<and> fst ` set (videoMap c') = insert (conn_id me) (fst ` set (videoMap c)))"
proof -
  have "\<forall>(key, c)\<in>set connections.
      \<not> pc_closed (peerConnection c) \<and> own_transceiver VideoKind c \<noteq> None"
    using assms(2) by simp
  from setup_kind_ok [OF assms(1) this] show ?thesis
    by (simp add: route_keys_def same_but_routes_def)
qed

lemma setup_audio_ok:
  assumes "\<not> pc_closed (peerConnection me)"
    and "\<forall>(key, c)\<in>set connections. \<not> pc_closed (peerConnection c) \<and> audio c \<noteq> None"
  shows "\<exists>me' connections'. setup_kind AudioKind (me, connections) = (None, me', connections')
     \<and> conn_id me' = conn_id me \<and> \<not> pc_closed (peerConnection me')
     \<and> audio me' \<noteq> None \<and> video me' = video me \<and> videoMap me' = videoMap me
     \<and> fst ` set (audioMap me') = fst ` set (audioMap me) \<union> (conn_id \<circ> snd) ` set connections
     \<and> map fst connections' = map fst connections
     \<and> (\<forall>(key, c')\<in>set connections'. \<exists>c. (key, c) \<in> set connections
            \<and> conn_id c' = conn_id c
            \<and> pc_closed (peerConnection c') = pc_closed (peerConnection c)
            \<and> video c' = video c \<and> audio c' = audio c \<and> videoMap c' = videoMap c
            \<and> fst ` set (audioMap c') = insert (conn_id me) (fst ` set (audioMap c)))"
proof -
  have "\<forall>(key, c)\<in>set connections.
      \<not> pc_closed (peerConnection c) \<and> own_transceiver AudioKind c \<noteq> None"
    using assms(2) by simp
  from setup_kind_ok [OF assms(1) this] show ?thesis
    by (simp add: route_keys_def same_but_routes_def)
qed

lemma WebRTCConnection_ok:
  assumes "enableVideo serverOptions = Some True"
    and "registry_ok connections" and "cid \<notin> fst ` set connections"
  shows "\<exists>me connections'.
     WebRTCConnection cid serverOptions connections ud = (None, me, connections')
     \<and> map fst connections' = map fst connections
     \<and> conn_ok (insert cid (fst ` set connections)) cid me
     \<and> (\<forall>(key, c)\<in>set connections'. conn_ok (insert cid (fst ` set connections)) key c)"
proof -
  let ?live = "fst ` set connections"
  from WebRTCConnection_start [OF assms(1)]
  obtain me0 where start: "WebRTCConnection cid serverOptions connections ud
        = setupStreams True True (me0, connections)
     \<and> conn_id me0 = cid \<and> \<not> pc_closed (peerConnection me0)
     \<and> audio me0 = None \<and> video me0 = None \<and> audioMap me0 = [] \<and> videoMap me0 = []" ..
  from start have c0: "WebRTCConnection cid serverOptions connections ud
      = setupStreams True True (me0, connections)"
    and m0: "conn_id me0 = cid" "\<not> pc_closed (peerConnection me0)"
      "audio me0 = None" "audioMap me0 = []" "videoMap me0 = []"
    by simp_all
  have ok: "conn_ok ?live key c" if "(key, c) \<in> set connections" for key c
    using assms(2) that unfolding registry_ok_def by blast
  have v: "\<forall>(key, c)\<in>set connections. \<not> pc_closed (peerConnection c) \<and> video c \<noteq> None"
    using ok unfolding conn_ok_def by blast
  obtain err1 me1 connections1 where
    r1: "setup_kind VideoKind (me0, connections) = (err1, me1, connections1)"
    by (cases "setup_kind VideoKind (me0, connections)")
  have s1: "err1 = None"
    and m1: "conn_id me1 = cid" "\<not> pc_closed (peerConnection me1)" "video me1 \<noteq> None"
      "audio me1 = None" "audioMap me1 = []"
    and k1: "fst ` set (videoMap me1) = (conn_id \<circ> snd) ` set connections"
    and f1: "map fst connections1 = map fst connections"
    using setup_video_ok [OF m0(2) v] unfolding r1 m0 by simp_all
  have e1: "\<exists>c. (key, c) \<in> set connections
            \<and> conn_id c' = conn_id c
            \<and> pc_closed (peerConnection c') = pc_closed (peerConnection c)
            \<and> video c' = video c \<and> audio c' = audio c \<and> audioMap c' = audioMap c
            \<and> fst ` set (videoMap c') = insert cid (fst ` set (videoMap c))"
    if "(key, c') \<in> set connections1" for key c'
  proof -
    have "\<forall>(key, c')\<in>set connections1. \<exists>c. (key, c) \<in> set connections
            \<and> conn_id c' = conn_id c
            \<and> pc_closed (peerConnection c') = pc_closed (peerConnection c)
            \<and> video c' = video c \<and> audio c' = audio c \<and> audioMap c' = audioMap c
            \<and> fst ` set (videoMap c') = insert cid (fst ` set (videoMap c))"
      using setup_video_ok [OF m0(2) v] unfolding r1 m0 by simp
    from bspec [OF this that] show ?thesis by simp
  qed
  have ids: "(conn_id \<circ> snd) ` set connections = ?live"
  proof -
    have "conn_id (snd e) = fst e" if "e \<in> set connections" for e
      using ok [of "fst e" "snd e"] that by (simp add: conn_ok_def)
    then show ?thesis by (simp add: image_def)
  qed
  have ok1: "conn_id c' = key \<and> \<not> pc_closed (peerConnection c') \<and> video c' \<noteq> None
      \<and> audio c' \<noteq> None \<and> fst ` set (audioMap c') = ?live - {key}
      \<and> fst ` set (videoMap c') = insert cid (?live - {key})"
    if "(key, c') \<in> set connections1" for key c'
  proof -
    from e1 [OF that] obtain c where c: "(key, c) \<in> set connections
            \<and> conn_id c' = conn_id c
            \<and> pc_closed (peerConnection c') = pc_closed (peerConnection c)
            \<and> video c' = video c \<and> audio c' = audio c \<and> audioMap c' = audioMap c
            \<and> fst ` set (videoMap c') = insert cid (fst ` set (videoMap c))" ..
    from c have "conn_ok ?live key c" using ok by simp
    then show ?thesis using c by (simp add: conn_ok_def)
  qed
  have a: "\<forall>(key, c)\<in>set connections1. \<not> pc_closed (peerConnection c) \<and> audio c \<noteq> None"
    using ok1 by blast
  obtain err2 me2 connections2 where
    r2: "setup_kind AudioKind (me1, connections1) = (err2, me2, connections2)"
    by (cases "setup_kind AudioKind (me1, connections1)")
  have s2: "err2 = None"
    and m2: "conn_id me2 = cid" "\<not> pc_closed (peerConnection me2)" "audio me2 \<noteq> None"
      "video me2 = video me1" "videoMap me2 = videoMap me1"
    and k2: "fst ` set (audioMap me2) = (conn_id \<circ> snd) ` set connections1"
    and f2: "map fst connections2 = map fst connections1"
    using setup_audio_ok [OF m1(2) a] unfolding r2 m1 by simp_all
  have e2: "\<exists>c. (key, c) \<in> set connections1
            \<and> conn_id c' = conn_id c
            \<and> pc_closed (peerConnection c') = pc_closed (peerConnection c)
            \<and> video c' = video c \<and> audio c' = audio c \<and> videoMap c' = videoMap c
            \<and> fst ` set (audioMap c') = insert cid (fst ` set (audioMap c))"
    if "(key, c') \<in> set connections2" for key c'
  proof -
    have "\<forall>(key, c')\<in>set connections2. \<exists>c. (key, c) \<in> set connections1
            \<and> conn_id c' = conn_id c
            \<and> pc_closed (peerConnection c') = pc_closed (peerConnection c)
            \<and> video c' = video c \<and> audio c' = audio c \<and> videoMap c' = videoMap c
            \<and> fst ` set (audioMap c') = insert cid (fst ` set (audioMap c))"
      using setup_audio_ok [OF m1(2) a] unfolding r2 m1 by simp
    from bspec [OF this that] show ?thesis by simp
  qed
  have "set (map fst connections1) = set (map fst connections)"
    using f1 by simp
  then have live1: "fst ` set connections1 = ?live"
    by simp
  have ids1: "(conn_id \<circ> snd) ` set connections1 = ?live"
  proof -
    have "conn_id (snd e) = fst e" if "e \<in> set connections1" for e
      using ok1 [of "fst e" "snd e"] that by simp
    then have "(conn_id \<circ> snd) ` set connections1 = fst ` set connections1"
      by (simp add: image_def)
    then show ?thesis using live1 by simp
  qed
  have res: "WebRTCConnection cid serverOptions connections ud = (None, me2, connections2)"
    using s1 s2 by (simp add: c0 setupStreams_def r1 r2)
  have me: "conn_ok (insert cid ?live) cid me2"
    unfolding conn_ok_def m2 k2 k1 ids ids1 using assms(3) m1(3) m2(2,3) by simp
  have others: "\<forall>(key, c)\<in>set connections2. conn_ok (insert cid ?live) key c"
  proof (clarify)
    fix key c'' assume in2: "(key, c'') \<in> set connections2"
    from e2 [OF in2] obtain c' where c': "(key, c') \<in> set connections1
            \<and> conn_id c'' = conn_id c'
            \<and> pc_closed (peerConnection c'') = pc_closed (peerConnection c')
            \<and> video c'' = video c' \<and> audio c'' = audio c' \<and> videoMap c'' = videoMap c'
            \<and> fst ` set (audioMap c'') = insert cid (fst ` set (audioMap c'))" ..
    from c' have in1: "(key, c') \<in> set connections1" by simp
    have "key \<in> fst ` set connections1" using in1 by force
    then have ne: "key \<noteq> cid" using assms(3) live1 by auto
    show "conn_ok (insert cid ?live) key c''"
      using ok1 [OF in1] ne c' by (auto simp: conn_ok_def)
  qed
  show ?thesis using res f1 f2 me others by auto
qed

lemma registry_create_ok:
  assumes "enableVideo serverOptions = Some True"
    and "registry_ok connections" and "cid \<notin> fst ` set connections"
  shows "\<exists>connections'. registry_create serverOptions cid ud connections = (None, connections')
     \<and> registry_ok connections' \<and> fst ` set connections' = insert cid (fst ` set connections)"
proof -
  obtain err me connections1 where
    w0: "WebRTCConnection cid serverOptions connections ud = (err, me, connections1)"
    by (cases "WebRTCConnection cid serverOptions connections ud")
  have e: "err = None"
    and f: "map fst connections1 = map fst connections"
    and me: "conn_ok (insert cid (fst ` set connections)) cid me"
    and others: "\<forall>(key, c)\<in>set connections1. conn_ok (insert cid (fst ` set connections)) key c"
    using WebRTCConnection_ok [OF assms, of ud] unfolding w0 by simp_all
  have w: "WebRTCConnection cid serverOptions connections ud = (None, me, connections1)"
    using w0 e by simp
  have "set (map fst connections1) = set (map fst connections)"
    using f by simp
  then have live1: "fst ` set connections1 = fst ` set connections"
    by simp
  have fresh: "cid \<notin> fst ` set connections1" using assms(3) live1 by simp
  have u: "AList.update cid me connections1 = connections1 @ [(cid, me)]"
    using fresh by (rule update_fresh)
  have "distinct (map fst connections1)"
    using assms(2) unfolding f by (simp add: registry_ok_def)
  then have d: "distinct (map fst (connections1 @ [(cid, me)]))"
    using fresh by simp
  have "registry_create serverOptions cid ud connections = (None, connections1 @ [(cid, me)])"
    by (simp add: registry_create_def w u)
  moreover have "fst ` set (connections1 @ [(cid, me)]) = insert cid (fst ` set connections)"
    using live1 by auto
  moreover have "registry_ok (connections1 @ [(cid, me)])"
    unfolding registry_ok_def using d me others live1 by auto
  ultimately show ?thesis by blast
qed

lemma close_connection_ok:
  assumes "registry_ok connections"
  shows "registry_ok (close_connection x connections)
     \<and> fst ` set (close_connection x connections) = fst ` set connections - {x}"
proof (cases "getConnection x connections")
  case None
  then have "x \<notin> fst ` set connections"
    by (simp add: getConnection_def map_of_eq_None_iff)
  then show ?thesis using assms None by (simp add: close_connection_def)
next
  case (Some c)
  let ?f = "\<lambda>(k, c). (k, c\<lparr> audioMap := AList.delete x (audioMap c),
                               videoMap := AList.delete x (videoMap c) \<rparr>)"
  have cl: "close_connection x connections = map ?f (AList.delete x connections)"
    using Some by (simp add: close_connection_def registry_remove_def delete_update_same)
  have keys: "map fst (map ?f (AList.delete x connections)) = removeAll x (map fst connections)"
    by (simp add: delete_keys [symmetric] comp_def case_prod_unfold)
  have "set (map fst (map ?f (AList.delete x connections))) = set (removeAll x (map fst connections))"
    using keys by simp
  then have live: "fst ` set (map ?f (AList.delete x connections)) = fst ` set connections - {x}"
    by (simp only: set_map set_removeAll)
  have d: "distinct (map fst (map ?f (AList.delete x connections)))"
    unfolding keys using assms by (simp add: registry_ok_def distinct_removeAll)
  have each: "\<forall>(key, c')\<in>set (map ?f (AList.delete x connections)).
      conn_ok (fst ` set connections - {x}) key c'"
  proof (clarify)
    fix key c' assume "(key, c') \<in> set (map ?f (AList.delete x connections))"
    then obtain c0 where c0: "(key, c0) \<in> set (AList.delete x connections)"
      and c': "c' = c0\<lparr> audioMap := AList.delete x (audioMap c0),
                          videoMap := AList.delete x (videoMap c0) \<rparr>"
      by auto
    have "(key, c0) \<in> set connections" using c0 by (auto simp: AList.delete_eq)
    then have "conn_ok (fst ` set connections) key c0"
      using assms by (auto simp: registry_ok_def)
    then show "conn_ok (fst ` set connections - {x}) key c'"
      unfolding c' by (auto simp: conn_ok_def keys_delete)
  qed
  show ?thesis
    unfolding cl registry_ok_def live using d each by simp
qed

lemma run_ops_ok:
  assumes "enableVideo serverOptions = Some True"
  shows "registry_ok connections \<Longrightarrow> set live = fst ` set connections \<Longrightarrow>
     ids_unique ops live \<Longrightarrow>
     \<exists>connections'. run_ops serverOptions ops connections = (None, connections')
        \<and> registry_ok connections'"
proof (induction ops arbitrary: connections live)
  case Nil
  then show ?case by simp
next
  case (Cons op ops)
  show ?case
  proof (cases op)
    case (Create cid ud)
    have fresh: "cid \<notin> fst ` set connections" and rest: "ids_unique ops (cid # live)"
      using Cons.prems(2,3) Create by auto
    obtain connections1 where
      c: "registry_create serverOptions cid ud connections = (None, connections1)"
      and ok: "registry_ok connections1"
      and l: "fst ` set connections1 = insert cid (fst ` set connections)"
      using registry_create_ok [OF assms Cons.prems(1) fresh] by blast
    have "set (cid # live) = fst ` set connections1" using l Cons.prems(2) by simp
    from Cons.IH [OF ok this rest] show ?thesis by (simp add: Create c)
  next
    case (Close cid)
    have ok: "registry_ok (close_connection cid connections)"
      and l: "fst ` set (close_connection cid connections) = fst ` set connections - {cid}"
      using close_connection_ok [OF Cons.prems(1)] by auto
    have h1: "set (removeAll cid live) = fst ` set (close_connection cid connections)"
      using l Cons.prems(2) by simp
    have h2: "ids_unique ops (removeAll cid live)" using Cons.prems(3) Close by simp
    from Cons.IH [OF ok h1 h2] show ?thesis by (simp add: Close)
  qed
qed

text \<open>
  Claim C6. Take any history of the registry, from the empty one, in which connections
  are created (each under an id that is not live at that moment) and closed, with video
  enabled in the server's options. Then no creation raises an error, and in the registry
  reached: any two different live connections have an entry for each other in their
  \<^verbatim>\<open>videoMap\<close>; every entry of a live connection's \<^verbatim>\<open>videoMap\<close> names another live
  connection; and after closing any connection \<open>x\<close>, no remaining connection has an
  entry for \<open>x\<close> in its \<^verbatim>\<open>videoMap\<close> or \<^verbatim>\<open>audioMap\<close>. The routes set up at creation are
  those of \<^verbatim>\<open>setupStreams\<close>; registering and the registry's part of closing are modelled
  from the spec.
\<close>

theorem track_routing_symmetric:
  assumes "enableVideo serverOptions = Some True"
    and "ids_unique ops []"
    and "run_ops serverOptions ops [] = (err, connections)"
  shows "err = None
    \<and> (\<forall>a b ca cb. getConnection a connections = Some ca
          \<and> getConnection b connections = Some cb \<and> a \<noteq> b
          \<longrightarrow> map_of (videoMap ca) b \<noteq> None \<and> map_of (videoMap cb) a \<noteq> None)
    \<and> (\<forall>a ca b. getConnection a connections = Some ca \<and> map_of (videoMap ca) b \<noteq> None
          \<longrightarrow> b \<noteq> a \<and> getConnection b connections \<noteq> None)
    \<and> (\<forall>x y cy. getConnection y (close_connection x connections) = Some cy
          \<longrightarrow> map_of (videoMap cy) x = None \<and> map_of (audioMap cy) x = None)"
proof -
  have "registry_ok []" by (simp add: registry_ok_def)
  moreover have "set [] = fst ` set ([] :: registry)" by simp
  ultimately have "\<exists>connections'. run_ops serverOptions ops [] = (None, connections')
        \<and> registry_ok connections'"
    using assms(2) by (rule run_ops_ok [OF assms(1)])
  then have e: "err = None" and ok: "registry_ok connections"
    unfolding assms(3) by simp_all
  have entry: "conn_ok (fst ` set connections) a ca \<and> a \<in> fst ` set connections"
    if "getConnection a connections = Some ca" for a ca
  proof -
    have "(a, ca) \<in> set connections"
      using that by (simp add: getConnection_def map_of_SomeD)
    then show ?thesis using ok unfolding registry_ok_def by force
  qed
  have has: "map_of (videoMap ca) b \<noteq> None \<longleftrightarrow> b \<in> fst ` set connections \<and> b \<noteq> a"
    if "getConnection a connections = Some ca" for a ca b
  proof -
    have "fst ` set (videoMap ca) = fst ` set connections - {a}"
      using entry [OF that] by (simp add: conn_ok_def)
    then show ?thesis by (auto simp: map_of_eq_None_iff)
  qed
  have sym: "map_of (videoMap ca) b \<noteq> None \<and> map_of (videoMap cb) a \<noteq> None"
    if "getConnection a connections = Some ca" "getConnection b connections = Some cb" "a \<noteq> b"
    for a b ca cb
    using has [OF that(1), of b] has [OF that(2), of a] entry [OF that(1)] entry [OF that(2)]
      that(3) by simp
  have live: "b \<noteq> a \<and> getConnection b connections \<noteq> None"
    if "getConnection a connections = Some ca" "map_of (videoMap ca) b \<noteq> None" for a ca b
    using has [OF that(1), of b] that(2) by (simp add: getConnection_def map_of_eq_None_iff)
  have closed: "map_of (videoMap cy) x = None \<and> map_of (audioMap cy) x = None"
    if "getConnection y (close_connection x connections) = Some cy" for x y cy
  proof -
    have ok': "registry_ok (close_connection x connections)"
      and l: "fst ` set (close_connection x connections) = fst ` set connections - {x}"
      using close_connection_ok [OF ok, of x] by simp_all
    have "(y, cy) \<in> set (close_connection x connections)"
      using that by (simp add: getConnection_def map_of_SomeD)
    then have "conn_ok (fst ` set connections - {x}) y cy"
      using ok' unfolding registry_ok_def l by force
    then have "x \<notin> fst ` set (videoMap cy)" "x \<notin> fst ` set (audioMap cy)"
      by (simp_all add: conn_ok_def)
    then show ?thesis by (simp add: map_of_eq_None_iff)
  qed
  show ?thesis using e sym live closed by blast
qed

theorem track_routing_symmetric_witness:
  "fst (run_ops video_options [Create ''A'' ''u'', Create ''B'' ''u''] []) = None
   \<and> map (\<lambda>(key, c). (key, map fst (videoMap c)))
        (snd (run_ops video_options [Create ''A'' ''u'', Create ''B'' ''u''] []))
     = [(''A'', [''B'']), (''B'', [''A''])]
   \<and> map (\<lambda>(key, c). (key, map fst (videoMap c)))
        (close_connection ''B'' (snd (run_ops video_options [Create ''A'' ''u'', Create ''B'' ''u''] [])))
     = [(''A'', [])]"
proof -
  let ?ops = "[Create ''A'' ''u'', Create ''B'' ''u'']"
  have h1: "enableVideo video_options = Some True"
    by (simp add: video_options_def no_media_def)
  have h2: "ids_unique ?ops []" by simp
  have h3: "run_ops video_options ?ops []
      = (fst (run_ops video_options ?ops []), snd (run_ops video_options ?ops []))"
    by simp
  have e: "fst (run_ops video_options ?ops []) = None"
    using track_routing_symmetric [OF h1 h2 h3] by blast
  have r: "map (\<lambda>(key, c). (key, map fst (videoMap c))) (snd (run_ops video_options ?ops []))
     = [(''A'', [''B'']), (''B'', [''A''])]"
    by code_simp
  have c: "map (\<lambda>(key, c). (key, map fst (videoMap c)))
        (close_connection ''B'' (snd (run_ops video_options ?ops [])))
     = [(''A'', [])]"
    by code_simp
  show ?thesis using e r c by blast
qed

end
